theory Spec2Isabelle
  imports Complex_Main "HOL-Library.Multiset" "HOL-Library.Log_Nat"
begin

section \<open>Tables\<close>

text \<open>
  The script \<^verbatim>\<open>winequalitycode.py\<close> works on one pandas \<^verbatim>\<open>DataFrame\<close>. A frame is
  modelled row by row: the column labels with the dtype of each column, and the rows,
  each with its index label and one cell per column. A cell is a number, a string, or
  missing (\<^verbatim>\<open>NaN\<close>/\<^verbatim>\<open>None\<close>, here \<open>None\<close>). A number is the value the cell holds, as a
  real; the correlation matrix, which pandas computes in double precision, is computed
  here with doubles too.
\<close>

datatype scalar = Num real | Str string

type_synonym cell = "scalar option"

datatype dtype = Numeric | Object

type_synonym row = "nat \<times> cell list"

record frame =
  columns :: "(string \<times> dtype) list"
  rows :: "row list"

datatype error = KeyError string | ValueError string

definition names :: "frame \<Rightarrow> string list" where
  "names f = map fst (columns f)"

definition nrows :: "frame \<Rightarrow> nat" where
  "nrows f = length (rows f)"

definition conforms :: "dtype \<Rightarrow> cell \<Rightarrow> bool" where
  \<comment> \<open>a numeric column holds numbers and missing values only\<close>
  "conforms dt c = (case (dt, c) of (Numeric, Some (Str s)) \<Rightarrow> False | _ \<Rightarrow> True)"

definition well_formed :: "frame \<Rightarrow> bool" where
  \<comment> \<open>What every frame that \<^verbatim>\<open>pd.read_csv\<close> returns satisfies: distinct column
      labels, one cell per column in every row, and cells that fit the dtype of their
      column.\<close>
  "well_formed f =
     (distinct (names f)
      \<and> list_all (\<lambda>r. length (snd r) = length (columns f)
                       \<and> list_all (\<lambda>(col, c). conforms (snd col) c) (zip (columns f) (snd r)))
            (rows f))"

definition is_empty :: "frame \<Rightarrow> bool" where
  \<comment> \<open>\<^verbatim>\<open>DataFrame.empty\<close>: some axis has length 0.\<close>
  "is_empty f = (columns f = [] \<or> rows f = [])"

subsection \<open>Missing values and duplicates (\<^verbatim>\<open>dropna\<close>, \<^verbatim>\<open>duplicated\<close>, \<^verbatim>\<open>drop_duplicates\<close>)\<close>

definition has_na :: "row \<Rightarrow> bool" where
  "has_na r = (None \<in> set (snd r))"

definition dropna :: "frame \<Rightarrow> frame" where
  \<comment> \<open>\<^verbatim>\<open>data.dropna()\<close>: axis 0, how='any'; the rows left keep their labels and order.\<close>
  "dropna f = f\<lparr>rows := filter (\<lambda>r. \<not> has_na r) (rows f)\<rparr>"

fun duplicated_from :: "cell list list \<Rightarrow> cell list list \<Rightarrow> bool list" where
  "duplicated_from seen [] = []"
| "duplicated_from seen (r # rs) = (r \<in> set seen) # duplicated_from (r # seen) rs"

definition duplicated :: "frame \<Rightarrow> bool list" where
  \<comment> \<open>\<^verbatim>\<open>data.duplicated()\<close>, keep='first': a row is marked when an earlier row has the
      same cells in every column (labels are not compared, missing equals missing).
      On an empty frame pandas returns an empty series.\<close>
  "duplicated f = (if is_empty f then [] else duplicated_from [] (map snd (rows f)))"

definition boolean_mask :: "'a list \<Rightarrow> bool list \<Rightarrow> 'a list" where
  \<comment> \<open>\<^verbatim>\<open>df[mask]\<close>: the rows whose mask entry is true.\<close>
  "boolean_mask xs m = map fst (filter snd (zip xs m))"

definition drop_duplicates :: "frame \<Rightarrow> frame" where
  \<comment> \<open>\<^verbatim>\<open>data.drop_duplicates()\<close>: a copy when the frame is empty, else
      \<^verbatim>\<open>self[~self.duplicated()]\<close>.\<close>
  "drop_duplicates f =
     (if is_empty f then f
      else f\<lparr>rows := boolean_mask (rows f) (map Not (duplicated f))\<rparr>)"

definition preprocess_data :: "frame \<Rightarrow> frame" where
  \<comment> \<open>lines 66-72\<close>
  "preprocess_data d = drop_duplicates (dropna d)"

definition isnull_sum :: "frame \<Rightarrow> (string \<times> nat) list" where
  \<comment> \<open>\<^verbatim>\<open>data.isnull().sum()\<close>: per column, the number of missing cells.\<close>
  "isnull_sum f =
     map (\<lambda>j. (names f ! j, length (filter (\<lambda>r. snd r ! j = None) (rows f))))
       [0 ..< length (columns f)]"

definition duplicate_count :: "frame \<Rightarrow> nat" where
  \<comment> \<open>\<^verbatim>\<open>data.duplicated().sum()\<close>\<close>
  "duplicate_count f = length (filter id (duplicated f))"

subsection \<open>Column access and assignment (\<^verbatim>\<open>data[c]\<close>, \<^verbatim>\<open>data[c] = v\<close>)\<close>

fun index_of :: "'a \<Rightarrow> 'a list \<Rightarrow> nat option" where
  "index_of c [] = None"
| "index_of c (x # xs) = (if x = c then Some 0 else map_option Suc (index_of c xs))"

definition getitem :: "frame \<Rightarrow> string \<Rightarrow> error + cell list" where
  \<comment> \<open>\<^verbatim>\<open>data[c]\<close> for one label: the column, or \<^verbatim>\<open>KeyError\<close>.\<close>
  "getitem f c =
     (case index_of c (names f) of
        None \<Rightarrow> Inl (KeyError c)
      | Some j \<Rightarrow> Inr (map (\<lambda>r. snd r ! j) (rows f)))"

definition assign_column :: "frame \<Rightarrow> string \<Rightarrow> dtype \<Rightarrow> cell list \<Rightarrow> frame" where
  \<comment> \<open>\<^verbatim>\<open>data[c] = values\<close>: an existing column is overwritten where it stands, a new
      one is appended as the last column.\<close>
  "assign_column f c dt vs =
     (case index_of c (names f) of
        None \<Rightarrow>
          \<lparr>columns = columns f @ [(c, dt)],
           rows = map (\<lambda>(r, v). (fst r, snd r @ [v])) (zip (rows f) vs)\<rparr>
      | Some j \<Rightarrow>
          \<lparr>columns = (columns f)[j := (c, dt)],
           rows = map (\<lambda>(r, v). (fst r, (snd r)[j := v])) (zip (rows f) vs)\<rparr>)"

definition setitem_scalar :: "frame \<Rightarrow> string \<Rightarrow> string \<Rightarrow> frame" where
  \<comment> \<open>\<^verbatim>\<open>data[c] = 'text'\<close>: the string is broadcast to every row.\<close>
  "setitem_scalar f c v = assign_column f c Object (replicate (nrows f) (Some (Str v)))"

definition setitem :: "frame \<Rightarrow> string \<Rightarrow> dtype \<Rightarrow> cell list \<Rightarrow> error + frame" where
  \<comment> \<open>\<^verbatim>\<open>data[c] = array\<close>: the array must have one value per row.\<close>
  "setitem f c dt vs =
     (if length vs = nrows f then Inr (assign_column f c dt vs)
      else Inl (ValueError ''Length of values does not match length of index''))"

subsection \<open>Concatenation (\<^verbatim>\<open>pd.concat([a, b], axis=0)\<close>)\<close>

definition common_dtype :: "dtype \<Rightarrow> dtype \<Rightarrow> dtype" where
  "common_dtype a b = (if a = Numeric \<and> b = Numeric then Numeric else Object)"

definition union_columns :: "frame \<Rightarrow> frame \<Rightarrow> (string \<times> dtype) list" where
  \<comment> \<open>join='outer', sort=False: the columns of the first frame, then those only the
      second has.\<close>
  "union_columns a b =
     map (\<lambda>(c, dt). (c, case map_of (columns b) c of None \<Rightarrow> dt | Some dt' \<Rightarrow> common_dtype dt dt'))
       (columns a)
     @ filter (\<lambda>(c, dt). c \<notin> set (names a)) (columns b)"

definition reindex_cells :: "string list \<Rightarrow> string list \<Rightarrow> cell list \<Rightarrow> cell list" where
  \<comment> \<open>The cells of a row under new column labels; a column the row's frame lacks is
      filled with missing.\<close>
  "reindex_cells old new cs =
     map (\<lambda>c. case index_of c old of None \<Rightarrow> None | Some j \<Rightarrow> cs ! j) new"

definition concat_frames :: "frame \<Rightarrow> frame \<Rightarrow> frame" where
  \<comment> \<open>Rows of the first frame, then rows of the second, each keeping its label.\<close>
  "concat_frames a b =
     (let cols = union_columns a b in
      \<lparr>columns = cols,
       rows = map (\<lambda>r. (fst r, reindex_cells (names a) (map fst cols) (snd r))) (rows a)
            @ map (\<lambda>r. (fst r, reindex_cells (names b) (map fst cols) (snd r))) (rows b)\<rparr>)"

definition combine :: "frame \<Rightarrow> frame \<Rightarrow> frame" where
  \<comment> \<open>lines 28-33; the arguments are the frames \<^verbatim>\<open>pd.read_csv\<close> returned for the
      red and the white file.\<close>
  "combine red_wine white_wine =
     concat_frames (setitem_scalar red_wine ''wine_type'' ''red'')
            (setitem_scalar white_wine ''wine_type'' ''white'')"

definition nunique :: "cell list \<Rightarrow> nat" where
  \<comment> \<open>the number of distinct values of a column\<close>
  "nunique vs = card (set vs)"

subsection \<open>Double-precision numbers\<close>

text \<open>
  \<^verbatim>\<open>DataFrame.corr()\<close> converts the table to 64-bit floats and computes with them. A
  double is a finite number, an infinity, or not a number; the sign of a zero is not
  kept (the code never divides by a zero). Every operation returns the double nearest
  to the exact result, a tie going to the even significand: \<open>round_binary p emin emax\<close>
  rounds to \<open>p\<close> significant bits, where the smallest positive number is
  \<open>1 / 2 ^ emin\<close>, and gives an infinity when the rounded value reaches \<open>2 ^ emax\<close>.
  Contraction of a product and a sum into one fused operation is not modelled.
\<close>

datatype f64 = Finite real | PlusInf | MinusInf | NaN

definition round_half_even :: "real \<Rightarrow> int" where
  "round_half_even x =
     (let f = \<lfloor>x\<rfloor>; d = x - of_int f
      in if d < 1 / 2 then f else if 1 / 2 < d then f + 1 else if even f then f else f + 1)"

definition infinity :: "bool \<Rightarrow> f64" where
  "infinity positive = (if positive then PlusInf else MinusInf)"

definition round_binary :: "nat \<Rightarrow> nat \<Rightarrow> nat \<Rightarrow> real \<Rightarrow> f64" where
  "round_binary p emin emax x =
     (let X = \<bar>x\<bar> * 2 ^ emin;
          s = floorlog 2 (nat \<lfloor>X\<rfloor>) - p;
          m = round_half_even (X / 2 ^ s)
      in if 2 ^ (emin + emax) \<le> m * 2 ^ s then infinity (0 < x)
         else Finite (sgn x * of_int (m * 2 ^ s) / 2 ^ emin))"

definition round64 :: "real \<Rightarrow> f64" where
  \<comment> \<open>binary64: 53 significant bits, smallest positive number \<open>2 ^ -1074\<close>, overflow
      from \<open>2 ^ 1024\<close>\<close>
  "round64 = round_binary 53 1074 1024"

fun fneg :: "f64 \<Rightarrow> f64" where
  "fneg (Finite x) = Finite (- x)"
| "fneg PlusInf = MinusInf"
| "fneg MinusInf = PlusInf"
| "fneg NaN = NaN"

fun fadd :: "f64 \<Rightarrow> f64 \<Rightarrow> f64" where
  "fadd NaN b = NaN"
| "fadd a NaN = NaN"
| "fadd (Finite x) (Finite y) = round64 (x + y)"
| "fadd PlusInf MinusInf = NaN"
| "fadd MinusInf PlusInf = NaN"
| "fadd PlusInf b = PlusInf"
| "fadd a PlusInf = PlusInf"
| "fadd MinusInf b = MinusInf"
| "fadd a MinusInf = MinusInf"

definition fsub :: "f64 \<Rightarrow> f64 \<Rightarrow> f64" where
  "fsub a b = fadd a (fneg b)"

fun fmul :: "f64 \<Rightarrow> f64 \<Rightarrow> f64" where
  "fmul NaN b = NaN"
| "fmul a NaN = NaN"
| "fmul (Finite x) (Finite y) = round64 (x * y)"
| "fmul (Finite x) b = (if x = 0 then NaN else infinity ((0 < x) = (b = PlusInf)))"
| "fmul a (Finite y) = (if y = 0 then NaN else infinity ((0 < y) = (a = PlusInf)))"
| "fmul a b = infinity (a = b)"

fun fdiv :: "f64 \<Rightarrow> f64 \<Rightarrow> f64" where
  "fdiv NaN b = NaN"
| "fdiv a NaN = NaN"
| "fdiv (Finite x) (Finite y) =
     (if y = 0 then (if x = 0 then NaN else infinity (0 < x)) else round64 (x / y))"
| "fdiv (Finite x) b = Finite 0"
| "fdiv a (Finite y) = infinity ((0 \<le> y) = (a = PlusInf))"
| "fdiv a b = NaN"

fun fsqrt :: "f64 \<Rightarrow> f64" where
  "fsqrt (Finite x) = (if x < 0 then NaN else round64 (sqrt x))"
| "fsqrt PlusInf = PlusInf"
| "fsqrt MinusInf = NaN"
| "fsqrt NaN = NaN"

fun fgt :: "f64 \<Rightarrow> real \<Rightarrow> bool" where
  \<comment> \<open>\<^verbatim>\<open>val > c\<close>: false for not-a-number\<close>
  "fgt (Finite x) c = (c < x)"
| "fgt PlusInf c = True"
| "fgt MinusInf c = False"
| "fgt NaN c = False"

fun flt :: "f64 \<Rightarrow> real \<Rightarrow> bool" where
  "flt (Finite x) c = (x < c)"
| "flt PlusInf c = False"
| "flt MinusInf c = True"
| "flt NaN c = False"

subsection \<open>Correlation (\<^verbatim>\<open>select_dtypes\<close>, \<^verbatim>\<open>corr\<close>)\<close>

definition select_dtypes_number :: "frame \<Rightarrow> frame" where
  \<comment> \<open>\<^verbatim>\<open>data.select_dtypes(include=[np.number])\<close>: the numeric columns, in order.\<close>
  "select_dtypes_number f =
     (let keep = filter (\<lambda>j. snd (columns f ! j) = Numeric) [0 ..< length (columns f)] in
      \<lparr>columns = map (\<lambda>j. columns f ! j) keep,
       rows = map (\<lambda>r. (fst r, map (\<lambda>j. snd r ! j) keep)) (rows f)\<rparr>)"


definition to_float64 :: "cell \<Rightarrow> f64" where
  \<comment> \<open>\<^verbatim>\<open>to_numpy(dtype=float, na_value=np.nan)\<close> on one cell\<close>
  "to_float64 c = (case c of Some (Num x) \<Rightarrow> round64 x | _ \<Rightarrow> NaN)"

definition column_floats :: "frame \<Rightarrow> nat \<Rightarrow> f64 list" where
  "column_floats f j = map (\<lambda>r. to_float64 (snd r ! j)) (rows f)"

definition complete_obs :: "f64 list \<Rightarrow> f64 list \<Rightarrow> (real \<times> real) list" where
  \<comment> \<open>the rows in which both columns are finite (\<^verbatim>\<open>mask = np.isfinite(mat)\<close>)\<close>
  "complete_obs xs ys =
     List.map_filter
       (\<lambda>p. case p of (Finite x, Finite y) \<Rightarrow> Some (x, y) | _ \<Rightarrow> None) (zip xs ys)"

record welford =
  nobs :: nat
  meanx :: f64
  meany :: f64
  ssqdm_x :: f64
  ssqdm_y :: f64
  covxy :: f64

definition welford_start :: welford where
  "welford_start =
     \<lparr>nobs = 0, meanx = Finite 0, meany = Finite 0,
      ssqdm_x = Finite 0, ssqdm_y = Finite 0, covxy = Finite 0\<rparr>"

definition welford_step :: "welford \<Rightarrow> real \<times> real \<Rightarrow> welford" where
  \<comment> \<open>the body of the loop over the rows in \<^verbatim>\<open>nancorr\<close>\<close>
  "welford_step w v =
     (let vx = Finite (fst v);
          vy = Finite (snd v);
          n = nobs w + 1;
          dx = fsub vx (meanx w);
          dy = fsub vy (meany w);
          mx = fadd (meanx w) (fmul (fdiv (Finite 1) (round64 (real n))) dx);
          my = fadd (meany w) (fmul (fdiv (Finite 1) (round64 (real n))) dy)
      in \<lparr>nobs = n, meanx = mx, meany = my,
          ssqdm_x = fadd (ssqdm_x w) (fmul (fsub vx mx) dx),
          ssqdm_y = fadd (ssqdm_y w) (fmul (fsub vy my) dy),
          covxy = fadd (covxy w) (fmul (fsub vx mx) dy)\<rparr>)"

definition clip :: "f64 \<Rightarrow> f64" where
  "clip val = (if fgt val 1 then Finite 1 else if flt val (- 1) then Finite (- 1) else val)"

definition nancorr_entry :: "f64 list \<Rightarrow> f64 list \<Rightarrow> f64" where
  \<comment> \<open>One entry of \<^verbatim>\<open>DataFrame.corr()\<close> (method='pearson', min_periods=1) as pandas'
      \<^verbatim>\<open>nancorr\<close> computes it: sums by Welford's method over the complete observations,
      then \<open>covxy / sqrt (ssqdm_x * ssqdm_y)\<close> clipped to \<open>[-1, 1]\<close> (as pandas 3 does;
      earlier versions return the quotient as it is), and \<^verbatim>\<open>NaN\<close> when there is no
      observation or the divisor is 0.\<close>
  "nancorr_entry xs ys =
     (let w = foldl welford_step welford_start (complete_obs xs ys) in
      if nobs w < 1 then NaN
      else
        let divisor = fsqrt (fmul (ssqdm_x w) (ssqdm_y w))
        in if divisor \<noteq> Finite 0 then clip (fdiv (covxy w) divisor) else NaN)"

definition corr :: "frame \<Rightarrow> f64 list list" where
  \<comment> \<open>\<^verbatim>\<open>nancorr\<close> computes the entry of columns \<open>xi\<close> and \<open>yi \<le> xi\<close> once and writes
      it to \<open>result[xi, yi]\<close> and \<open>result[yi, xi]\<close>.\<close>
  "corr f =
     map (\<lambda>j. map (\<lambda>k. nancorr_entry (column_floats f (max j k)) (column_floats f (min j k)))
                [0 ..< length (columns f)])
       [0 ..< length (columns f)]"

subsection \<open>Library routines taken as given\<close>

text \<open>
  The clustering and regression routines of scikit-learn are parameters of the model:
  what they compute is not modelled, only what the script passes to them and what it
  does with their results. Each stands for the routine with the seed the script fixes
  (\<^verbatim>\<open>random_state=42\<close>), and may fail, as the routine may raise.
\<close>

record 'm sklearn =
  permutation :: "nat \<Rightarrow> nat list"
    \<comment> \<open>\<^verbatim>\<open>RandomState(42).permutation(n)\<close>\<close>
  kmeans :: "nat \<Rightarrow> cell list list \<Rightarrow> error + nat list \<times> real"
    \<comment> \<open>\<^verbatim>\<open>KMeans(n_clusters=k, random_state=42)\<close> fitted to X: labels and inertia\<close>
  silhouette_score :: "cell list list \<Rightarrow> cell list \<Rightarrow> error + real"
  lr_fit :: "cell list list \<Rightarrow> cell list \<Rightarrow> error + 'm"
    \<comment> \<open>\<^verbatim>\<open>LinearRegression().fit(X, y)\<close>: the fitted model\<close>
  lr_predict :: "'m \<Rightarrow> cell list list \<Rightarrow> error + real list"
  mean_squared_error :: "cell list \<Rightarrow> real list \<Rightarrow> error + real"
    \<comment> \<open>\<^verbatim>\<open>mean_squared_error(y_test, y_pred)\<close>\<close>

subsection \<open>Train/test split (\<^verbatim>\<open>train_test_split(X, y, test_size=0.3, random_state=42)\<close>)\<close>

definition getitems :: "frame \<Rightarrow> string list \<Rightarrow> error + cell list list" where
  \<comment> \<open>\<^verbatim>\<open>data[features]\<close> for a list of labels: the rows cut down to these columns, or
      \<^verbatim>\<open>KeyError\<close> when a label is missing.\<close>
  "getitems f cs =
     (case filter (\<lambda>c. c \<notin> set (names f)) cs of
        [] \<Rightarrow> Inr (map (\<lambda>r. reindex_cells (names f) cs (snd r)) (rows f))
      | c # _ \<Rightarrow> Inl (KeyError c))"

definition validate_shuffle_split :: "nat \<Rightarrow> error + nat \<times> nat" where
  \<comment> \<open>\<^verbatim>\<open>n_test = ceil(0.3 * n_samples)\<close>, \<^verbatim>\<open>n_train = n_samples - n_test\<close>, and an error
      when the train set would be empty. The ceiling is that of the exact product
      \<open>3 n / 10\<close>; the rounding of the floating-point product is not modelled.\<close>
  "validate_shuffle_split n_samples =
     (let n_test = (3 * n_samples + 9) div 10;
          n_train = n_samples - n_test
      in if n_train = 0 then Inl (ValueError ''the resulting train set will be empty'')
         else Inr (n_train, n_test))"

definition shuffle_split :: "nat list \<Rightarrow> nat \<Rightarrow> nat \<Rightarrow> nat list \<times> nat list" where
  \<comment> \<open>\<^verbatim>\<open>ShuffleSplit\<close>: the first \<open>n_test\<close> positions of the permutation are the test
      rows, the next \<open>n_train\<close> the train rows.\<close>
  "shuffle_split perm n_train n_test = (take n_train (drop n_test perm), take n_test perm)"

definition safe_indexing :: "'a list \<Rightarrow> nat list \<Rightarrow> 'a list" where
  "safe_indexing xs idx = map (\<lambda>i. xs ! i) idx"

definition train_test_split ::
  "(nat \<Rightarrow> nat list) \<Rightarrow> 'a list \<Rightarrow> 'b list \<Rightarrow> error + 'a list \<times> 'a list \<times> 'b list \<times> 'b list" where
  "train_test_split perm X y =
     (if length X \<noteq> length y then Inl (ValueError ''inconsistent numbers of samples'')
      else
        case validate_shuffle_split (length X) of
          Inl e \<Rightarrow> Inl e
        | Inr (n_train, n_test) \<Rightarrow>
            (case shuffle_split (perm (length X)) n_train n_test of
               (train, test) \<Rightarrow>
                 Inr (safe_indexing X train, safe_indexing X test,
                      safe_indexing y train, safe_indexing y test)))"

subsection \<open>What a run shows\<close>

text \<open>
  A stage writes figures and the entry point prints summary lines. Rendering is not
  modelled: a figure is recorded with the data it is drawn from, in the order the
  script produces them, and the only failure of a plotting call that is modelled is
  the lookup of a column it names. A stage returns the events it produced, and its
  result or the error that ended it.
\<close>

datatype event =
    Boxplot frame
  | Countplot "cell list"
  | Heatmap "f64 list list"
  | Histogram "cell list"
  | Elbow_plot "real list"
  | Cluster_plot "cell list" "cell list" "cell list"
  | Regression_line "cell list" "cell list"
  | Print_missing "(string \<times> nat) list"
  | Print_duplicates nat
  | Print_silhouette real
  | Print_mse real

type_synonym 'a run = "event list \<times> (error + 'a)"

definition bind_run :: "'a run \<Rightarrow> ('a \<Rightarrow> 'b run) \<Rightarrow> 'b run" where
  \<comment> \<open>one statement after another: an error ends the run, keeping what was shown\<close>
  "bind_run m k =
     (case m of
        (ev, Inl e) \<Rightarrow> (ev, Inl e)
      | (ev, Inr x) \<Rightarrow> (case k x of (ev', r) \<Rightarrow> (ev @ ev', r)))"

definition emit :: "event \<Rightarrow> unit run" where
  "emit e = ([e], Inr ())"

subsection \<open>The stages\<close>

definition load_and_explore_data :: "frame \<Rightarrow> frame \<Rightarrow> (frame \<times> (string \<times> nat) list \<times> nat) run" where
  \<comment> \<open>lines 20-64; the arguments are the frames read from the two files. The summary
      that \<^verbatim>\<open>data.info()\<close> prints is not recorded, and the values of
      \<^verbatim>\<open>data.describe()\<close> and \<^verbatim>\<open>data.shape\<close> are dropped by the script itself.\<close>
  "load_and_explore_data red_wine white_wine =
     (let data = combine red_wine white_wine;
          missing_values = isnull_sum data;
          dup_count = duplicate_count data
      in case getitem data ''wine_type'' of
           Inl e \<Rightarrow> ([Boxplot data], Inl e)
         | Inr tags \<Rightarrow> ([Boxplot data, Countplot tags], Inr (data, missing_values, dup_count)))"

definition plot_histogram :: "frame \<Rightarrow> unit run" where
  \<comment> \<open>lines 74-84\<close>
  "plot_histogram data =
     (case getitem data ''quality'' of
        Inl e \<Rightarrow> ([], Inl e)
      | Inr q \<Rightarrow> ([Histogram q], Inr ()))"

fun elbow_sse :: "'m sklearn \<Rightarrow> cell list list \<Rightarrow> nat list \<Rightarrow> error + real list" where
  \<comment> \<open>lines 96-100: one fit per candidate cluster count\<close>
  "elbow_sse L X [] = Inr []"
| "elbow_sse L X (k # ks) =
     (case kmeans L k X of
        Inl e \<Rightarrow> Inl e
      | Inr (labels, inertia) \<Rightarrow>
          (case elbow_sse L X ks of Inl e \<Rightarrow> Inl e | Inr sse \<Rightarrow> Inr (inertia # sse)))"

definition perform_clustering :: "'m sklearn \<Rightarrow> frame \<Rightarrow> string list \<Rightarrow> (frame \<times> real) run" where
  \<comment> \<open>lines 86-110; the frame returned is the argument with the \<^verbatim>\<open>cluster\<close> column
      written into it\<close>
  "perform_clustering L data features =
     (case getitems data features of
        Inl e \<Rightarrow> ([], Inl e)
      | Inr X \<Rightarrow>
     (case kmeans L 3 X of
        Inl e \<Rightarrow> ([], Inl e)
      | Inr (labels, inertia) \<Rightarrow>
     (case setitem data ''cluster'' Numeric (map (\<lambda>l. Some (Num (real l))) labels) of
        Inl e \<Rightarrow> ([], Inl e)
      | Inr data' \<Rightarrow>
     (case getitem data' ''cluster'' of
        Inl e \<Rightarrow> ([], Inl e)
      | Inr cluster \<Rightarrow>
     (case silhouette_score L X cluster of
        Inl e \<Rightarrow> ([], Inl e)
      | Inr silhouette_avg \<Rightarrow>
     (case elbow_sse L X [1 ..< 11] of
        Inl e \<Rightarrow> ([], Inl e)
      | Inr sse \<Rightarrow> ([Elbow_plot sse], Inr (data', silhouette_avg))))))))"

definition visualize_clusters :: "frame \<Rightarrow> unit run" where
  \<comment> \<open>lines 112-126; \<^verbatim>\<open>sns.scatterplot\<close> looks the three names up itself and raises
      \<^verbatim>\<open>ValueError\<close> for the first that is not a column\<close>
  "visualize_clusters data =
     (case getitem data ''alcohol'' of
        Inl e \<Rightarrow> ([], Inl (ValueError ''Could not interpret value alcohol for x''))
      | Inr x \<Rightarrow>
     (case getitem data ''volatile acidity'' of
        Inl e \<Rightarrow> ([], Inl (ValueError ''Could not interpret value volatile acidity for y''))
      | Inr y \<Rightarrow>
     (case getitem data ''cluster'' of
        Inl e \<Rightarrow> ([], Inl (ValueError ''Could not interpret value cluster for hue''))
      | Inr hue \<Rightarrow> ([Cluster_plot x y hue], Inr ()))))"

definition regression_mse :: "'m sklearn \<Rightarrow> frame \<Rightarrow> string list \<Rightarrow> string \<Rightarrow> error + real" where
  \<comment> \<open>lines 132-138\<close>
  "regression_mse L data features target =
     (case getitems data features of
        Inl e \<Rightarrow> Inl e
      | Inr X \<Rightarrow>
     (case getitem data target of
        Inl e \<Rightarrow> Inl e
      | Inr y \<Rightarrow>
     (case train_test_split (permutation L) X y of
        Inl e \<Rightarrow> Inl e
      | Inr (X_train, X_test, y_train, y_test) \<Rightarrow>
     (case lr_fit L X_train y_train of
        Inl e \<Rightarrow> Inl e
      | Inr lr \<Rightarrow>
     (case lr_predict L lr X_test of
        Inl e \<Rightarrow> Inl e
      | Inr y_pred \<Rightarrow> mean_squared_error L y_test y_pred)))))"

definition regplot :: "frame \<Rightarrow> unit run" where
  \<comment> \<open>lines 141-147: \<^verbatim>\<open>sns.regplot(x='alcohol', y='quality', data=data)\<close> reads the
      two columns it names from the whole table\<close>
  "regplot data =
     (case getitem data ''alcohol'' of
        Inl e \<Rightarrow> ([], Inl e)
      | Inr x \<Rightarrow>
     (case getitem data ''quality'' of
        Inl e \<Rightarrow> ([], Inl e)
      | Inr y \<Rightarrow> ([Regression_line x y], Inr ())))"

definition perform_regression :: "'m sklearn \<Rightarrow> frame \<Rightarrow> string list \<Rightarrow> string \<Rightarrow> real run" where
  \<comment> \<open>lines 128-149\<close>
  "perform_regression L data features target =
     (case regression_mse L data features target of
        Inl e \<Rightarrow> ([], Inl e)
      | Inr mse \<Rightarrow> bind_run (regplot data) (\<lambda>_. ([], Inr mse)))"

definition plot_correlation_matrix :: "frame \<Rightarrow> unit run" where
  \<comment> \<open>lines 151-162; \<^verbatim>\<open>sns.heatmap\<close> takes the minimum of the matrix and raises on
      the empty matrix of a table without numeric columns, before a figure is saved\<close>
  "plot_correlation_matrix data =
     (let numeric_data = select_dtypes_number data;
          correlation_matrix = corr numeric_data
      in if correlation_matrix = []
         then ([], Inl (ValueError ''zero-size array to reduction operation fmin which has no identity''))
         else ([Heatmap correlation_matrix], Inr ()))"

subsection \<open>The entry point\<close>

definition main_features :: "string list" where
  \<comment> \<open>\<^verbatim>\<open>features\<close>, line 184\<close>
  "main_features = [''fixed acidity'', ''volatile acidity'', ''citric acid'', ''residual sugar'',
     ''chlorides'', ''free sulfur dioxide'', ''total sulfur dioxide'', ''density'', ''pH'',
     ''sulphates'', ''alcohol'']"

definition main_target :: string where
  \<comment> \<open>\<^verbatim>\<open>target\<close>, line 186\<close>
  "main_target = ''quality''"

definition main_explore :: "frame \<Rightarrow> frame \<Rightarrow> frame run" where
  \<comment> \<open>lines 169-178: load and explore, print, correlation matrix, then clean; the
      arguments are the two files as read\<close>
  "main_explore red_file white_file =
     bind_run (load_and_explore_data red_file white_file) (\<lambda>(data, missing_values, dup_count).
     bind_run (emit (Print_missing missing_values)) (\<lambda>_.
     bind_run (emit (Print_duplicates dup_count)) (\<lambda>_.
     bind_run (plot_correlation_matrix data) (\<lambda>_.
     ([], Inr (preprocess_data data))))))"

definition main_analyse :: "'m sklearn \<Rightarrow> frame \<Rightarrow> unit run" where
  \<comment> \<open>lines 180-197, on the cleaned table\<close>
  "main_analyse L data =
     bind_run (plot_histogram data) (\<lambda>_.
     bind_run (perform_clustering L data main_features) (\<lambda>(data, silhouette_avg).
     bind_run (emit (Print_silhouette silhouette_avg)) (\<lambda>_.
     bind_run (visualize_clusters data) (\<lambda>_.
     bind_run (perform_regression L data main_features main_target) (\<lambda>mse.
     emit (Print_mse mse))))))"

definition main :: "'m sklearn \<Rightarrow> frame \<Rightarrow> frame \<Rightarrow> unit run" where
  \<comment> \<open>lines 165-197\<close>
  "main L red_file white_file = bind_run (main_explore red_file white_file) (main_analyse L)"

definition cell_of :: "frame \<Rightarrow> string \<Rightarrow> row \<Rightarrow> cell" where
  \<comment> \<open>the cell of a row under a column label\<close>
  "cell_of f c r = (case index_of c (names f) of None \<Rightarrow> None | Some j \<Rightarrow> snd r ! j)"

definition agree_on :: "frame \<Rightarrow> frame \<Rightarrow> string list \<Rightarrow> bool" where
  \<comment> \<open>two tables have the same column under each of the labels, or both lack it\<close>
  "agree_on a b cs = list_all (\<lambda>c. getitem a c = getitem b c) cs"

subsection \<open>Frames as objects\<close>

text \<open>
  Python hands a frame to a function by reference. Where it matters which object a call
  changes, frames live in a store, a reference being a position in it. \<^verbatim>\<open>dropna()\<close>
  and \<^verbatim>\<open>drop_duplicates()\<close> (both with inplace=False) build a new frame and return a
  reference to it; \<^verbatim>\<open>data[c] = values\<close> writes into the object itself.
\<close>

type_synonym ref = nat

type_synonym store = "frame list"

definition new_object :: "frame \<Rightarrow> store \<Rightarrow> ref \<times> store" where
  "new_object f s = (length s, s @ [f])"

definition dropna_obj :: "ref \<Rightarrow> store \<Rightarrow> ref \<times> store" where
  "dropna_obj r s = new_object (dropna (s ! r)) s"

definition drop_duplicates_obj :: "ref \<Rightarrow> store \<Rightarrow> ref \<times> store" where
  "drop_duplicates_obj r s = new_object (drop_duplicates (s ! r)) s"

definition setitem_obj :: "ref \<Rightarrow> string \<Rightarrow> dtype \<Rightarrow> cell list \<Rightarrow> store \<Rightarrow> error + store" where
  "setitem_obj r c dt vs s =
     (case setitem (s ! r) c dt vs of Inl e \<Rightarrow> Inl e | Inr f \<Rightarrow> Inr (s[r := f]))"

definition preprocess_data_obj :: "ref \<Rightarrow> store \<Rightarrow> ref \<times> store" where
  \<comment> \<open>lines 66-72 on references: the local name \<^verbatim>\<open>data\<close> is rebound twice, the
      caller's name is not.\<close>
  "preprocess_data_obj data s =
     (let (data1, s1) = dropna_obj data s;
          (data2, s2) = drop_duplicates_obj data1 s1
      in (data2, s2))"

subsection \<open>Example tables\<close>

definition header_only :: frame where
  \<comment> \<open>a file with its header line and no sample\<close>
  "header_only = \<lparr>columns = [(''pH'', Object), (''quality'', Object)], rows = []\<rparr>"

definition two_samples :: frame where
  "two_samples = \<lparr>columns = [(''pH'', Numeric), (''quality'', Numeric)],
     rows = [(0, [Some (Num 3), Some (Num 5)]), (1, [Some (Num 3), Some (Num 6)])]\<rparr>"

definition with_alcohol :: frame where
  \<comment> \<open>four samples with three measurements each\<close>
  "with_alcohol = \<lparr>columns = [(''pH'', Numeric), (''quality'', Numeric), (''alcohol'', Numeric)],
     rows = [(0, [Some (Num 3), Some (Num 5), Some (Num 9)]),
             (1, [Some (Num 4), Some (Num 6), Some (Num 10)]),
             (2, [Some (Num 5), Some (Num 5), Some (Num 11)]),
             (3, [Some (Num 6), Some (Num 7), Some (Num 12)])]\<rparr>"

definition with_cluster :: frame where
  \<comment> \<open>\<open>with_alcohol\<close> after a clustering stage has labelled its rows\<close>
  "with_cluster =
     assign_column with_alcohol ''cluster'' Numeric
       [Some (Num 0), Some (Num 1), Some (Num 1), Some (Num 2)]"

definition num_of :: "cell \<Rightarrow> real" where
  "num_of c = (case c of Some (Num x) \<Rightarrow> x | _ \<Rightarrow> 0)"

definition mean :: "real list \<Rightarrow> real" where
  "mean xs = sum_list xs / real (length xs)"

definition mean_regressor :: "real sklearn" where
  \<comment> \<open>A stand-in for the library, to run the model on the example tables: the
      permutation is the identity, the fitted model is the mean of the training
      targets and predicts it for every row, the error is the mean of the squared
      differences, every row gets cluster 0.\<close>
  "mean_regressor =
     \<lparr>permutation = (\<lambda>n. [0 ..< n]),
      kmeans = (\<lambda>k X. Inr (map (\<lambda>r. 0) X, 0)),
      silhouette_score = (\<lambda>X labels. Inr 0),
      lr_fit = (\<lambda>X y. Inr (mean (map num_of y))),
      lr_predict = (\<lambda>m X. Inr (map (\<lambda>r. m) X)),
      mean_squared_error =
        (\<lambda>y_true y_pred.
           Inr (mean (map (\<lambda>(c, p). (num_of c - p) * (num_of c - p)) (zip y_true y_pred))))\<rparr>"


definition large_integers :: frame where
  \<comment> \<open>two different integers that are the same double\<close>
  "large_integers = \<lparr>columns = [(''count'', Numeric)],
     rows = [(0, [Some (Num (2 ^ 53))]), (1, [Some (Num (2 ^ 53 + 1))])]\<rparr>"

definition wide_range :: frame where
  \<comment> \<open>two doubles so far apart that the square of their sum of squared deviations
      is not a finite double\<close>
  "wide_range = \<lparr>columns = [(''count'', Numeric)],
     rows = [(0, [Some (Num 0)]), (1, [Some (Num (2 ^ 400))])]\<rparr>"

definition repeated_sample :: frame where
  \<comment> \<open>a file that lists one sample twice\<close>
  "repeated_sample = \<lparr>columns = [(''pH'', Numeric), (''quality'', Numeric)],
     rows = [(0, [Some (Num 3), Some (Num 5)]), (1, [Some (Num 3), Some (Num 5)])]\<rparr>"

definition one_sample :: frame where
  "one_sample = \<lparr>columns = [(''pH'', Numeric), (''quality'', Numeric)],
     rows = [(0, [Some (Num 4), Some (Num 7)])]\<rparr>"

definition ten_rows :: frame where
  \<comment> \<open>Ten samples: label 4 repeats the cells of label 1, label 7 lacks its pH.\<close>
  "ten_rows = \<lparr>columns = [(''pH'', Numeric), (''quality'', Numeric)],
     rows = [(0, [Some (Num 3), Some (Num 5)]), (1, [Some (Num 3), Some (Num 6)]),
             (2, [Some (Num 4), Some (Num 5)]), (3, [Some (Num 4), Some (Num 6)]),
             (4, [Some (Num 3), Some (Num 6)]), (5, [Some (Num 2), Some (Num 5)]),
             (6, [Some (Num 2), Some (Num 6)]), (7, [None, Some (Num 7)]),
             (8, [Some (Num 1), Some (Num 7)]), (9, [Some (Num 2), Some (Num 7)])]\<rparr>"

section \<open>Cleaning\<close>

lemma boolean_mask_Nil [simp]: "boolean_mask [] m = []"
  by (simp add: boolean_mask_def)

lemma boolean_mask_Cons [simp]:
  "boolean_mask (x # xs) (b # m) = (if b then x # boolean_mask xs m else boolean_mask xs m)"
  by (simp add: boolean_mask_def)

lemma length_duplicated_from [simp]: "length (duplicated_from seen rs) = length rs"
  by (induction rs arbitrary: seen) simp_all

lemma set_undup:
  "snd ` set (boolean_mask rs (map Not (duplicated_from seen (map snd rs))))
     = snd ` set rs - set seen"
  by (induction rs arbitrary: seen) auto

lemma undup_subset:
  "set (boolean_mask rs (map Not (duplicated_from seen (map snd rs)))) \<subseteq> set rs"
  by (induction rs arbitrary: seen) auto

lemma distinct_undup:
  "distinct (map snd (boolean_mask rs (map Not (duplicated_from seen (map snd rs)))))"
proof (induction rs arbitrary: seen)
  case Nil
  show ?case by simp
next
  case (Cons r rs)
  have "snd r \<notin> snd ` set (boolean_mask rs (map Not (duplicated_from (snd r # seen) (map snd rs))))"
    by (simp add: set_undup)
  with Cons show ?case by simp
qed

lemma undup_id:
  "distinct (map snd rs) \<Longrightarrow> snd ` set rs \<inter> set seen = {} \<Longrightarrow>
   boolean_mask rs (map Not (duplicated_from seen (map snd rs))) = rs"
proof (induction rs arbitrary: seen)
  case Nil
  show ?case by simp
next
  case (Cons r rs)
  from Cons.prems have "snd ` set rs \<inter> set (snd r # seen) = {}" by auto
  with Cons show ?case by auto
qed

lemma length_undup_le:
  "length (boolean_mask rs (map Not (duplicated_from seen (map snd rs)))) \<le> length rs"
  by (induction rs arbitrary: seen) (auto intro: le_SucI)

lemma length_undup:
  "length (boolean_mask rs (map Not (duplicated_from seen (map snd rs))))
     = card (snd ` set rs - set seen)"
proof -
  let ?u = "boolean_mask rs (map Not (duplicated_from seen (map snd rs)))"
  have "length ?u = length (map snd ?u)" by simp
  also have "\<dots> = card (set (map snd ?u))"
    using distinct_undup [of rs seen] by (simp only: distinct_card)
  also have "\<dots> = card (snd ` set rs - set seen)"
    by (simp add: set_undup)
  finally show ?thesis .
qed

lemma count_duplicated_from:
  "length (filter id (duplicated_from seen cs)) + card (set cs - set seen) = length cs"
proof (induction cs arbitrary: seen)
  case Nil
  show ?case by simp
next
  case (Cons c cs)
  have len: "length (c # cs) = Suc (length cs)" by simp
  note IH = Cons [of "c # seen"]
  show ?case
  proof (cases "c \<in> set seen")
    case True
    have "set (c # cs) - set seen = set cs - set (c # seen)"
      using True by auto
    then have c1: "card (set (c # cs) - set seen) = card (set cs - set (c # seen))"
      by (rule arg_cong)
    have c2: "length (filter id (duplicated_from seen (c # cs)))
        = Suc (length (filter id (duplicated_from (c # seen) cs)))"
      using True by simp
    from IH c1 c2 len show ?thesis by linarith
  next
    case False
    have eq: "set (c # cs) - set seen = insert c (set cs - set (c # seen))"
      using False by auto
    have fin: "finite (set cs - set (c # seen))" by simp
    have nin: "c \<notin> set cs - set (c # seen)" by simp
    have "card (insert c (set cs - set (c # seen))) = Suc (card (set cs - set (c # seen)))"
      by (rule card_insert_disjoint [OF fin nin])
    then have c1: "card (set (c # cs) - set seen) = Suc (card (set cs - set (c # seen)))"
      by (simp only: eq)
    have c2: "length (filter id (duplicated_from seen (c # cs)))
        = length (filter id (duplicated_from (c # seen) cs))"
      using False by simp
    from IH c1 c2 len show ?thesis by linarith
  qed
qed

lemma columns_dropna [simp]: "columns (dropna f) = columns f"
  by (simp add: dropna_def)

lemma columns_drop_duplicates [simp]: "columns (drop_duplicates f) = columns f"
  by (simp add: drop_duplicates_def)

lemma rows_dropna: "rows (dropna f) = filter (\<lambda>r. \<not> has_na r) (rows f)"
  by (simp add: dropna_def)

lemma dropna_idem: "dropna (dropna f) = dropna f"
  by (simp add: dropna_def)

lemma rows_drop_duplicates:
  "rows (drop_duplicates f) =
     (if columns f = [] then rows f
      else boolean_mask (rows f) (map Not (duplicated_from [] (map snd (rows f)))))"
  by (simp add: drop_duplicates_def duplicated_def is_empty_def)

lemma dropna_no_na: "dropna f = f" if "\<And>r. r \<in> set (rows f) \<Longrightarrow> \<not> has_na r"
proof -
  have "filter (\<lambda>r. \<not> has_na r) (rows f) = rows f"
    using that by (simp add: filter_id_conv)
  then show ?thesis by (simp add: dropna_def)
qed

lemma drop_duplicates_idem: "drop_duplicates (drop_duplicates f) = drop_duplicates f"
proof (cases "columns f = []")
  case True
  then show ?thesis by (simp add: drop_duplicates_def is_empty_def)
next
  case False
  let ?u = "boolean_mask (rows f) (map Not (duplicated_from [] (map snd (rows f))))"
  have "boolean_mask ?u (map Not (duplicated_from [] (map snd ?u))) = ?u"
    by (rule undup_id) (simp_all add: distinct_undup)
  then have "rows (drop_duplicates (drop_duplicates f)) = rows (drop_duplicates f)"
    using False by (simp add: rows_drop_duplicates)
  moreover have "columns (drop_duplicates (drop_duplicates f)) = columns (drop_duplicates f)"
    by simp
  moreover have "frame.more (drop_duplicates (drop_duplicates f)) = frame.more (drop_duplicates f)"
    by (simp add: drop_duplicates_def)
  ultimately show ?thesis by (simp add: frame.equality)
qed

lemma preprocess_no_na:
  assumes "r \<in> set (rows (preprocess_data d))"
  shows "\<not> has_na r"
proof -
  have "set (rows (preprocess_data d)) \<subseteq> set (rows (dropna d))"
    unfolding preprocess_data_def rows_drop_duplicates using undup_subset by auto
  with assms have "r \<in> set (rows (dropna d))" by blast
  then show ?thesis by (simp add: rows_dropna)
qed

text \<open>
  C2. Cleaning is idempotent: cleaning a cleaned table returns it unchanged, so cleaning
  twice gives the same table as cleaning once.
\<close>

theorem preprocess_data_idempotent:
  "preprocess_data (preprocess_data d) = preprocess_data d"
proof -
  have "dropna (preprocess_data d) = preprocess_data d"
    by (rule dropna_no_na) (rule preprocess_no_na)
  then show ?thesis
    by (simp add: preprocess_data_def drop_duplicates_idem)
qed

text \<open>
  C3. Cleaning returns a table with at most as many rows as its input and with exactly
  the input's columns (labels and dtypes) in the input's order.
\<close>

theorem preprocess_data_rows_columns:
  "nrows (preprocess_data d) \<le> nrows d \<and> columns (preprocess_data d) = columns d"
proof -
  have "length (rows (drop_duplicates (dropna d))) \<le> length (rows (dropna d))"
    by (simp add: rows_drop_duplicates length_undup_le)
  also have "\<dots> \<le> length (rows d)"
    by (simp add: rows_dropna)
  finally show ?thesis
    by (simp add: preprocess_data_def nrows_def)
qed

lemma duplicate_count_card:
  assumes "columns d \<noteq> []"
  shows "duplicate_count d + card (snd ` set (rows d)) = nrows d"
proof (cases "rows d = []")
  case True
  then show ?thesis
    by (simp add: duplicate_count_def duplicated_def is_empty_def nrows_def)
next
  case False
  with assms have "duplicated d = duplicated_from [] (map snd (rows d))"
    by (simp add: duplicated_def is_empty_def)
  with count_duplicated_from [of "[]" "map snd (rows d)"] show ?thesis
    by (simp add: duplicate_count_def nrows_def)
qed

lemma nrows_preprocess_data:
  assumes "columns d \<noteq> []"
  shows "nrows (preprocess_data d) = card (snd ` {r \<in> set (rows d). \<not> has_na r})"
proof -
  have "rows (preprocess_data d) =
      boolean_mask (rows (dropna d)) (map Not (duplicated_from [] (map snd (rows (dropna d)))))"
    using assms by (simp add: preprocess_data_def rows_drop_duplicates)
  then have "nrows (preprocess_data d) = card (snd ` set (rows (dropna d)))"
    by (simp add: nrows_def length_undup)
  also have "set (rows (dropna d)) = {r \<in> set (rows d). \<not> has_na r}"
    by (simp add: rows_dropna)
  finally show ?thesis .
qed

lemma has_na_cells: "snd r = snd r' \<Longrightarrow> has_na r = has_na r'"
  by (simp add: has_na_def)

text \<open>
  C4. A table of 10 rows in which exactly one row repeats an earlier row in full
  (\<^verbatim>\<open>duplicated().sum()\<close> is 1) and exactly one row has a missing value is cleaned to
  exactly 8 rows.
\<close>

theorem preprocess_data_ten_rows:
  assumes ten: "nrows d = 10"
    and dup: "duplicate_count d = 1"
    and na: "length (filter has_na (rows d)) = 1"
  shows "nrows (preprocess_data d) = 8"
proof -
  have cols: "columns d \<noteq> []"
  proof
    assume "columns d = []"
    then have "duplicate_count d = 0"
      by (simp add: duplicate_count_def duplicated_def is_empty_def)
    with dup show False by simp
  qed
  from duplicate_count_card [OF cols] ten dup
  have card9: "card (snd ` set (rows d)) = 9" by simp
  from na obtain r0 where r0: "filter has_na (rows d) = [r0]"
    by (auto simp: length_Suc_conv)
  then have "set (filter has_na (rows d)) = {r0}" by simp
  then have only: "{r \<in> set (rows d). has_na r} = {r0}" by simp
  then have r0_in: "r0 \<in> set (rows d)" and r0_na: "has_na r0" by blast+
  have "snd ` {r \<in> set (rows d). \<not> has_na r} = snd ` set (rows d) - {snd r0}"
  proof (intro set_eqI iffI)
    fix x
    assume "x \<in> snd ` {r \<in> set (rows d). \<not> has_na r}"
    then obtain r where r: "r \<in> set (rows d)" "\<not> has_na r" "x = snd r" by blast
    with r0_na has_na_cells [of r r0] have "snd r \<noteq> snd r0" by blast
    with r show "x \<in> snd ` set (rows d) - {snd r0}" by simp
  next
    fix x
    assume "x \<in> snd ` set (rows d) - {snd r0}"
    then obtain r where r: "r \<in> set (rows d)" "x = snd r" "snd r \<noteq> snd r0" by blast
    then have "r \<noteq> r0" by blast
    with only r(1) have "\<not> has_na r" by blast
    with r show "x \<in> snd ` {r \<in> set (rows d). \<not> has_na r}" by auto
  qed
  moreover have "card (snd ` set (rows d) - {snd r0}) = card (snd ` set (rows d)) - 1"
    using r0_in by (simp add: card_Diff_singleton)
  ultimately have "card (snd ` {r \<in> set (rows d). \<not> has_na r}) = 8"
    using card9 by simp
  with nrows_preprocess_data [OF cols] show ?thesis by simp
qed

theorem preprocess_data_ten_rows_witness:
  "nrows ten_rows = 10 \<and> duplicate_count ten_rows = 1
   \<and> length (filter has_na (rows ten_rows)) = 1 \<and> nrows (preprocess_data ten_rows) = 8"
proof -
  have ten: "nrows ten_rows = 10"
    by (simp add: ten_rows_def nrows_def)
  have dup: "duplicate_count ten_rows = 1"
    by (simp add: ten_rows_def duplicate_count_def duplicated_def is_empty_def)
  have na: "length (filter has_na (rows ten_rows)) = 1"
    by (simp add: ten_rows_def has_na_def)
  from preprocess_data_ten_rows [OF ten dup na] ten dup na show ?thesis by simp
qed

section \<open>Loading\<close>

lemma index_of_None: "index_of c xs = None \<longleftrightarrow> c \<notin> set xs"
  by (induction xs) auto

lemma index_of_Some: "index_of c xs = Some j \<Longrightarrow> j < length xs \<and> xs ! j = c"
  by (induction xs arbitrary: j) (auto split: if_splits)

lemma index_of_append: "c \<in> set xs \<Longrightarrow> index_of c (xs @ ys) = index_of c xs"
  by (induction xs) auto

lemma index_of_snoc: "c \<notin> set xs \<Longrightarrow> index_of c (xs @ [c]) = Some (length xs)"
  by (induction xs) auto

lemma index_of_update:
  assumes "index_of c (map fst xs) = Some j"
  shows "index_of c (map fst (xs[j := (c, d)])) = Some j"
proof -
  from assms have "map fst xs ! j = c" by (simp add: index_of_Some)
  then have "(map fst xs)[j := c] = map fst xs" by (metis list_update_id)
  then have "map fst (xs[j := (c, d)]) = map fst xs" by (simp add: map_update)
  with assms show ?thesis by simp
qed

lemma map_constant: "\<forall>x \<in> set xs. g x = v \<Longrightarrow> map g xs = replicate (length xs) v"
  by (induction xs) simp_all

lemma nth_snoc_length: "length xs = n \<Longrightarrow> (xs @ [v]) ! n = v"
  by auto

lemma zip_replicate_length: "zip xs (replicate (length xs) v) = map (\<lambda>x. (x, v)) xs"
  by (induction xs) simp_all

lemma names_union_columns:
  "map fst (union_columns a b) = names a @ filter (\<lambda>c. c \<notin> set (names a)) (names b)"
  by (simp add: union_columns_def names_def filter_map comp_def case_prod_unfold)

lemma nrows_setitem_scalar [simp]: "nrows (setitem_scalar f c v) = nrows f"
  by (simp add: setitem_scalar_def assign_column_def nrows_def split: option.split)

lemma nrows_concat_frames [simp]: "nrows (concat_frames a b) = nrows a + nrows b"
  by (simp add: concat_frames_def nrows_def Let_def)

lemma names_concat_frames:
  "names (concat_frames a b) = names a @ filter (\<lambda>c. c \<notin> set (names a)) (names b)"
  unfolding concat_frames_def Let_def names_def
  by (simp add: names_union_columns [unfolded names_def])

lemma rows_concat_frames:
  "rows (concat_frames a b) =
     map (\<lambda>r. (fst r, reindex_cells (names a) (names (concat_frames a b)) (snd r))) (rows a)
   @ map (\<lambda>r. (fst r, reindex_cells (names b) (names (concat_frames a b)) (snd r))) (rows b)"
  unfolding concat_frames_def Let_def names_def by simp

lemma reindex_cells_nth:
  "j < length new \<Longrightarrow> reindex_cells old new cs ! j =
      (case index_of (new ! j) old of None \<Rightarrow> None | Some k \<Rightarrow> cs ! k)"
  by (simp add: reindex_cells_def)


lemma getitem_concat_frames:
  assumes "index_of c (names a) = Some j"
  shows "getitem (concat_frames a b) c =
    Inr (map (\<lambda>r. snd r ! j) (rows a)
       @ map (\<lambda>r. case index_of c (names b) of None \<Rightarrow> None | Some k \<Rightarrow> snd r ! k) (rows b))"
proof -
  let ?new = "names (concat_frames a b)"
  from assms have c_in: "c \<in> set (names a)"
    using index_of_None [of c "names a"] by auto
  have ix: "index_of c ?new = Some j"
    using assms c_in by (simp only: names_concat_frames index_of_append)
  have j: "j < length ?new" "?new ! j = c"
    using index_of_Some [OF ix] by simp_all
  have cell: "reindex_cells old ?new cs ! j =
      (case index_of c old of None \<Rightarrow> None | Some k \<Rightarrow> cs ! k)" for old cs
    using reindex_cells_nth [OF j(1)] j(2) by simp
  have "getitem (concat_frames a b) c = Inr (map (\<lambda>r. snd r ! j) (rows (concat_frames a b)))"
    using ix by (simp add: getitem_def)
  also have "map (\<lambda>r. snd r ! j) (rows (concat_frames a b)) =
      map (\<lambda>r. snd r ! j) (rows a)
       @ map (\<lambda>r. case index_of c (names b) of None \<Rightarrow> None | Some k \<Rightarrow> snd r ! k) (rows b)"
    by (subst rows_concat_frames) (simp add: cell assms comp_def)
  finally show ?thesis .
qed

lemma tagged_column:
  assumes "well_formed f"
  shows "\<exists>j. index_of c (names (setitem_scalar f c v)) = Some j
    \<and> (\<forall>r \<in> set (rows (setitem_scalar f c v)). snd r ! j = Some (Str v))"
proof -
  have len: "length (snd r) = length (columns f)" if "r \<in> set (rows f)" for r
    using assms that by (simp add: well_formed_def list_all_iff)
  show ?thesis
  proof (cases "index_of c (names f)")
    case None
    then have "c \<notin> set (names f)" by (simp add: index_of_None)
    then have ix: "index_of c (names f @ [c]) = Some (length (names f))"
      by (rule index_of_snoc)
    have rows: "rows (setitem_scalar f c v) = map (\<lambda>r. (fst r, snd r @ [Some (Str v)])) (rows f)"
      using None
      by (simp add: setitem_scalar_def assign_column_def nrows_def zip_replicate_length comp_def)
    have nms: "names (setitem_scalar f c v) = names f @ [c]"
      using None by (simp add: setitem_scalar_def assign_column_def names_def)
    have "snd r ! length (names f) = Some (Str v)" if "r \<in> set (rows (setitem_scalar f c v))" for r
    proof -
      from that rows obtain r0 where r0: "r0 \<in> set (rows f)" "snd r = snd r0 @ [Some (Str v)]"
        by auto
      from len [OF r0(1)] have "length (snd r0) = length (names f)" by (simp add: names_def)
      then show ?thesis unfolding r0(2) by (rule nth_snoc_length)
    qed
    with ix nms show ?thesis by auto
  next
    case (Some j)
    then have j: "j < length (columns f)"
      using index_of_Some [of c "names f" j] by (simp add: names_def)
    have rows: "rows (setitem_scalar f c v) = map (\<lambda>r. (fst r, (snd r)[j := Some (Str v)])) (rows f)"
      using Some
      by (simp add: setitem_scalar_def assign_column_def nrows_def zip_replicate_length comp_def)
    have "names (setitem_scalar f c v) = map fst ((columns f)[j := (c, Object)])"
      using Some by (simp add: setitem_scalar_def assign_column_def names_def)
    with index_of_update [of c "columns f" j Object] Some
    have ix: "index_of c (names (setitem_scalar f c v)) = Some j"
      by (simp add: names_def)
    have "snd r ! j = Some (Str v)" if "r \<in> set (rows (setitem_scalar f c v))" for r
    proof -
      from that rows obtain r0 where r0: "r0 \<in> set (rows f)" "snd r = (snd r0)[j := Some (Str v)]"
        by auto
      from len [OF r0(1)] j show ?thesis unfolding r0(2) by simp
    qed
    with ix show ?thesis by auto
  qed
qed

text \<open>
  C1 (as amended). For two well-formed input tables that each hold at least one sample,
  the combined table has as many rows as the two inputs together, and its
  \<^verbatim>\<open>wine_type\<close> column holds exactly two distinct values. Rows are never merged, so
  this holds whether or not the row sets of the two files are disjoint.
\<close>

theorem combine_rows_and_tags:
  assumes "well_formed red_wine" and "well_formed white_wine"
    and "0 < nrows red_wine" and "0 < nrows white_wine"
  shows "nrows (combine red_wine white_wine) = nrows red_wine + nrows white_wine
    \<and> (\<exists>tags. getitem (combine red_wine white_wine) ''wine_type'' = Inr tags
          \<and> nunique tags = 2)"
proof -
  let ?r = "setitem_scalar red_wine ''wine_type'' ''red''"
  let ?w = "setitem_scalar white_wine ''wine_type'' ''white''"
  from tagged_column [OF assms(1), of "''wine_type''" "''red''"]
  obtain j where j: "index_of ''wine_type'' (names ?r) = Some j"
    and red: "\<forall>r \<in> set (rows ?r). snd r ! j = Some (Str ''red'')" by blast
  from tagged_column [OF assms(2), of "''wine_type''" "''white''"]
  obtain k where k: "index_of ''wine_type'' (names ?w) = Some k"
    and white: "\<forall>r \<in> set (rows ?w). snd r ! k = Some (Str ''white'')" by blast
  have "map (\<lambda>r. snd r ! j) (rows ?r) = replicate (nrows red_wine) (Some (Str ''red''))"
    using map_constant [OF red] by (simp add: nrows_def [symmetric])
  moreover have "map (\<lambda>r. snd r ! k) (rows ?w) = replicate (nrows white_wine) (Some (Str ''white''))"
    using map_constant [OF white] by (simp add: nrows_def [symmetric])
  ultimately have tags: "getitem (combine red_wine white_wine) ''wine_type'' =
      Inr (replicate (nrows red_wine) (Some (Str ''red''))
         @ replicate (nrows white_wine) (Some (Str ''white'')))"
    using getitem_concat_frames [OF j, of ?w] k by (simp add: combine_def)
  have "set (replicate (nrows red_wine) (Some (Str ''red''))
         @ replicate (nrows white_wine) (Some (Str ''white'')))
      = {Some (Str ''red''), Some (Str ''white'')}"
    using assms(3,4) by auto
  then have "nunique (replicate (nrows red_wine) (Some (Str ''red''))
         @ replicate (nrows white_wine) (Some (Str ''white''))) = 2"
    by (simp add: nunique_def)
  with tags show ?thesis by (simp add: combine_def)
qed

lemma wf_header_only: "well_formed header_only"
  by (simp add: well_formed_def header_only_def names_def conforms_def)

lemma wf_two_samples: "well_formed two_samples"
  by (simp add: well_formed_def two_samples_def names_def conforms_def)

lemma wf_one_sample: "well_formed one_sample"
  by (simp add: well_formed_def one_sample_def names_def conforms_def)

text \<open>
  C1 as stated fails when one file has a header line and no sample: the row count is
  still the sum, but only one tag occurs in the \<^verbatim>\<open>wine_type\<close> column.
\<close>

theorem combine_header_only_counterexample:
  "well_formed header_only \<and> well_formed two_samples
   \<and> snd ` set (rows header_only) \<inter> snd ` set (rows two_samples) = {}
   \<and> getitem (combine header_only two_samples) ''wine_type''
       = Inr [Some (Str ''white''), Some (Str ''white'')]
   \<and> nunique [Some (Str ''white''), Some (Str ''white'')] = 1"
proof -
  have "getitem (combine header_only two_samples) ''wine_type''
       = Inr [Some (Str ''white''), Some (Str ''white'')]"
    by (simp add: combine_def concat_frames_def setitem_scalar_def assign_column_def
        union_columns_def reindex_cells_def getitem_def names_def nrows_def
        header_only_def two_samples_def)
  moreover have "snd ` set (rows header_only) \<inter> snd ` set (rows two_samples) = {}"
    by (simp add: header_only_def)
  moreover have "nunique [Some (Str ''white''), Some (Str ''white'')] = 1"
    by (simp add: nunique_def)
  ultimately show ?thesis
    using wf_header_only wf_two_samples by simp
qed

theorem combine_rows_and_tags_witness:
  "well_formed two_samples \<and> well_formed one_sample
   \<and> 0 < nrows two_samples \<and> 0 < nrows one_sample
   \<and> nrows (combine two_samples one_sample) = nrows two_samples + nrows one_sample
   \<and> (\<exists>tags. getitem (combine two_samples one_sample) ''wine_type'' = Inr tags
          \<and> nunique tags = 2)"
proof -
  have pos: "0 < nrows two_samples" "0 < nrows one_sample"
    by (simp_all add: nrows_def two_samples_def one_sample_def)
  from combine_rows_and_tags [OF wf_two_samples wf_one_sample pos] wf_two_samples wf_one_sample pos
  show ?thesis by simp
qed

section \<open>Cleaning leaves its argument alone\<close>

lemma setitem_obj_writes:
  assumes "r < length s" and "setitem_obj r c dt vs s = Inr s'"
  shows "setitem (s ! r) c dt vs = Inr (s' ! r)"
  using assms by (auto simp: setitem_obj_def split: sum.splits)

text \<open>
  C9. \<^verbatim>\<open>preprocess_data\<close> does not change the table it is given: after the call the
  caller's object (and every other object that existed before) is as it was, and the
  result is a new object holding the cleaned table.
\<close>

theorem preprocess_data_obj_frame:
  assumes "data < length s"
  shows "case preprocess_data_obj data s of
           (res, s') \<Rightarrow> s' ! data = s ! data \<and> res \<noteq> data \<and> take (length s) s' = s
              \<and> s' ! res = preprocess_data (s ! data)"
  using assms
  by (simp add: preprocess_data_obj_def dropna_obj_def drop_duplicates_obj_def new_object_def
      preprocess_data_def nth_append)

theorem preprocess_data_obj_frame_witness:
  "(0::nat) < length [ten_rows]
   \<and> (case preprocess_data_obj 0 [ten_rows] of
           (res, s') \<Rightarrow> s' ! 0 = [ten_rows] ! 0 \<and> res \<noteq> 0 \<and> take (length [ten_rows]) s' = [ten_rows]
              \<and> s' ! res = preprocess_data ([ten_rows] ! 0))"
proof -
  have "(0::nat) < length [ten_rows]" by simp
  from preprocess_data_obj_frame [OF this] show ?thesis by simp
qed

section \<open>The train/test split\<close>

lemma length_getitem: "getitem f c = Inr col \<Longrightarrow> length col = nrows f"
  by (auto simp: getitem_def nrows_def split: option.splits)

lemma length_getitems: "getitems f cs = Inr X \<Longrightarrow> length X = nrows f"
  by (auto simp: getitems_def nrows_def split: list.splits)

lemma validate_shuffle_split_ok:
  assumes "2 \<le> n"
  shows "validate_shuffle_split n = Inr (n - (3 * n + 9) div 10, (3 * n + 9) div 10)"
proof -
  from assms have "(3 * n + 9) div 10 < n" by linarith
  then show ?thesis by (simp add: validate_shuffle_split_def Let_def)
qed

lemma shuffle_split_partition:
  assumes perm: "mset p = mset [0 ..< n]" and "n_test \<le> n" and "n_train = n - n_test"
  shows "case shuffle_split p n_train n_test of
           (train, test) \<Rightarrow> test @ train = p \<and> length test = n_test \<and> length train = n_train"
proof -
  from perm have "size (mset p) = size (mset [0 ..< n])" by simp
  then have len: "length p = n" by simp
  with assms(2,3) have "take n_train (drop n_test p) = drop n_test p" by simp
  with len assms(2,3) show ?thesis by (simp add: shuffle_split_def)
qed

text \<open>
  C5 (as amended). For every table with at least two rows, the split of the regression
  stage returns train and test rows at positions that are disjoint and together are all
  positions of the table, so the two sizes add up to the row count; the test part has
  \<open>ceil (3 n / 10)\<close> rows, within one row of 30%. The permutation drawn by the
  library is any arrangement of the positions \<open>0 ..< n\<close>.
\<close>

theorem train_test_split_partition:
  assumes X: "getitems data features = Inr X"
    and y: "getitem data target = Inr y"
    and rows: "2 \<le> nrows data"
    and perm: "mset (perm (nrows data)) = mset [0 ..< nrows data]"
  shows "\<exists>train test.
      train_test_split perm X y =
        Inr (safe_indexing X train, safe_indexing X test,
             safe_indexing y train, safe_indexing y test)
    \<and> distinct train \<and> distinct test \<and> set train \<inter> set test = {}
    \<and> set train \<union> set test = {0 ..< nrows data}
    \<and> length train + length test = nrows data
    \<and> 3 * nrows data \<le> 10 * length test \<and> 10 * length test \<le> 3 * nrows data + 9"
proof -
  let ?n = "nrows data"
  let ?n_test = "(3 * ?n + 9) div 10"
  let ?n_train = "?n - ?n_test"
  obtain train test where split: "shuffle_split (perm ?n) ?n_train ?n_test = (train, test)"
    by (cases "shuffle_split (perm ?n) ?n_train ?n_test")
  have lenX: "length X = ?n" and leny: "length y = ?n"
    using X y by (simp_all add: length_getitems length_getitem)
  have le: "?n_test \<le> ?n" using rows by linarith
  from shuffle_split_partition [OF perm le refl] split
  have cat: "test @ train = perm ?n" and lt: "length test = ?n_test" and ltr: "length train = ?n_train"
    by simp_all
  from perm have "distinct (perm ?n)"
    using mset_eq_imp_distinct_iff [of "perm ?n" "[0 ..< ?n]"] by simp
  with cat have d: "distinct (test @ train)" by simp
  from perm have "set (perm ?n) = set [0 ..< ?n]" by (rule mset_eq_setD)
  with cat have u: "set test \<union> set train = {0 ..< ?n}" by (metis set_append set_upt)
  have "train_test_split perm X y =
        Inr (safe_indexing X train, safe_indexing X test,
             safe_indexing y train, safe_indexing y test)"
    using lenX leny split validate_shuffle_split_ok [OF rows]
    by (simp add: train_test_split_def)
  moreover have "distinct train" "distinct test" "set train \<inter> set test = {}"
    using d by auto
  moreover have "set train \<union> set test = {0 ..< ?n}" using u by auto
  moreover have "length train + length test = ?n" using lt ltr le by simp
  moreover have "3 * ?n \<le> 10 * length test" "10 * length test \<le> 3 * ?n + 9"
    unfolding lt by linarith+
  ultimately show ?thesis by blast
qed

text \<open>
  C5 as stated fails on a table with a single row: the whole row would go to the test
  part, and the split raises instead of returning an empty train part.
\<close>

theorem train_test_split_one_row_counterexample:
  "nrows one_sample = 1
   \<and> getitems one_sample [''pH''] = Inr [[Some (Num 4)]]
   \<and> getitem one_sample ''quality'' = Inr [Some (Num 7)]
   \<and> (\<forall>perm. train_test_split perm [[Some (Num 4)]] [Some (Num 7)]
         = Inl (ValueError ''the resulting train set will be empty''))"
  by (simp add: one_sample_def nrows_def getitems_def getitem_def names_def reindex_cells_def
      train_test_split_def validate_shuffle_split_def)

theorem train_test_split_partition_witness:
  "getitems two_samples [''pH''] = Inr [[Some (Num 3)], [Some (Num 3)]]
   \<and> getitem two_samples ''quality'' = Inr [Some (Num 5), Some (Num 6)]
   \<and> 2 \<le> nrows two_samples
   \<and> mset (rev [0 ..< nrows two_samples]) = mset [0 ..< nrows two_samples]
   \<and> (\<exists>train test.
      train_test_split (\<lambda>n. rev [0 ..< n]) [[Some (Num 3)], [Some (Num 3)]] [Some (Num 5), Some (Num 6)] =
        Inr (safe_indexing [[Some (Num 3)], [Some (Num 3)]] train,
             safe_indexing [[Some (Num 3)], [Some (Num 3)]] test,
             safe_indexing [Some (Num 5), Some (Num 6)] train,
             safe_indexing [Some (Num 5), Some (Num 6)] test)
    \<and> distinct train \<and> distinct test \<and> set train \<inter> set test = {}
    \<and> set train \<union> set test = {0 ..< nrows two_samples}
    \<and> length train + length test = nrows two_samples
    \<and> 3 * nrows two_samples \<le> 10 * length test
    \<and> 10 * length test \<le> 3 * nrows two_samples + 9)"
proof -
  have X: "getitems two_samples [''pH''] = Inr [[Some (Num 3)], [Some (Num 3)]]"
    by (simp add: two_samples_def getitems_def names_def reindex_cells_def)
  have y: "getitem two_samples ''quality'' = Inr [Some (Num 5), Some (Num 6)]"
    by (simp add: two_samples_def getitem_def names_def)
  have rows: "2 \<le> nrows two_samples"
    by (simp add: two_samples_def nrows_def)
  have perm: "mset ((\<lambda>n. rev [0 ..< n]) (nrows two_samples)) = mset [0 ..< nrows two_samples]"
    by simp
  from train_test_split_partition [where perm = "\<lambda>n. rev [0 ..< n]", OF X y rows perm]
    X y rows perm
  show ?thesis by simp
qed

section \<open>What the regression stage depends on\<close>

lemma getitem_present:
  "c \<in> set (names f) \<Longrightarrow> getitem f c = Inr (map (cell_of f c) (rows f))"
  by (auto simp: getitem_def cell_of_def index_of_None split: option.splits)

lemma getitem_absent: "c \<notin> set (names f) \<Longrightarrow> getitem f c = Inl (KeyError c)"
  by (simp add: getitem_def index_of_None [THEN iffD2])

lemma getitems_present:
  "set cs \<subseteq> set (names f) \<Longrightarrow>
   getitems f cs = Inr (map (\<lambda>r. map (\<lambda>c. cell_of f c r) cs) (rows f))"
proof -
  assume "set cs \<subseteq> set (names f)"
  then have "filter (\<lambda>c. c \<notin> set (names f)) cs = []"
    by (auto simp: filter_empty_conv)
  then show ?thesis
    by (simp add: getitems_def reindex_cells_def cell_of_def)
qed

lemma rows_from_columns:
  assumes "length ra = length rb"
    and "\<And>c. c \<in> set cs \<Longrightarrow> map (ga c) ra = map (gb c) rb"
  shows "map (\<lambda>r. map (\<lambda>c. ga c r) cs) ra = map (\<lambda>r. map (\<lambda>c. gb c r) cs) rb"
  using assms
proof (induction ra rb rule: list_induct2)
  case Nil
  show ?case by simp
next
  case (Cons x xs y ys)
  from Cons.prems have hd: "ga c x = gb c y" and tl: "map (ga c) xs = map (gb c) ys"
    if "c \<in> set cs" for c
    using that by auto
  from Cons.IH tl have "map (\<lambda>r. map (\<lambda>c. ga c r) cs) xs = map (\<lambda>r. map (\<lambda>c. gb c r) cs) ys"
    by blast
  moreover from hd have "map (\<lambda>c. ga c x) cs = map (\<lambda>c. gb c y) cs" by simp
  ultimately show ?case by simp
qed

lemma agree_on_names:
  assumes "agree_on a b cs" and "c \<in> set cs"
  shows "c \<in> set (names a) \<longleftrightarrow> c \<in> set (names b)"
proof -
  from assms have eq: "getitem a c = getitem b c"
    by (simp add: agree_on_def list_all_iff)
  show ?thesis
  proof
    assume "c \<in> set (names a)"
    with eq getitem_present [of c a] getitem_absent [of c b] show "c \<in> set (names b)"
      by (cases "c \<in> set (names b)") auto
  next
    assume "c \<in> set (names b)"
    with eq getitem_present [of c b] getitem_absent [of c a] show "c \<in> set (names a)"
      by (cases "c \<in> set (names a)") auto
  qed
qed

lemma getitems_agree:
  assumes agree: "agree_on a b cs" and n: "nrows a = nrows b"
  shows "getitems a cs = getitems b cs"
proof (cases "set cs \<subseteq> set (names a)")
  case True
  with agree have sub: "set cs \<subseteq> set (names b)"
    using agree_on_names by blast
  have "map (cell_of a c) (rows a) = map (cell_of b c) (rows b)" if "c \<in> set cs" for c
  proof -
    from agree that have "getitem a c = getitem b c"
      by (simp add: agree_on_def list_all_iff)
    moreover from that True have "getitem a c = Inr (map (cell_of a c) (rows a))"
      by (intro getitem_present) blast
    moreover from that sub have "getitem b c = Inr (map (cell_of b c) (rows b))"
      by (intro getitem_present) blast
    ultimately show ?thesis by simp
  qed
  with n have "map (\<lambda>r. map (\<lambda>c. cell_of a c r) cs) (rows a)
      = map (\<lambda>r. map (\<lambda>c. cell_of b c r) cs) (rows b)"
    by (intro rows_from_columns) (simp_all add: nrows_def)
  with True sub show ?thesis by (simp add: getitems_present)
next
  case False
  have eq: "filter (\<lambda>c. c \<notin> set (names a)) cs = filter (\<lambda>c. c \<notin> set (names b)) cs"
    using agree_on_names [OF agree] by (intro filter_cong) auto
  from False have "filter (\<lambda>c. c \<notin> set (names a)) cs \<noteq> []"
    by (auto simp: filter_empty_conv)
  then obtain c rest where fa: "filter (\<lambda>c. c \<notin> set (names a)) cs = c # rest"
    by (cases "filter (\<lambda>c. c \<notin> set (names a)) cs") auto
  with eq have fb: "filter (\<lambda>c. c \<notin> set (names b)) cs = c # rest" by simp
  have "getitems a cs = Inl (KeyError c)" unfolding getitems_def fa by simp
  moreover have "getitems b cs = Inl (KeyError c)" unfolding getitems_def fb by simp
  ultimately show ?thesis by simp
qed

lemma agree_on_append: "agree_on a b (xs @ ys) \<longleftrightarrow> agree_on a b xs \<and> agree_on a b ys"
  by (simp add: agree_on_def)

lemma agree_on_Cons: "agree_on a b (c # cs) \<longleftrightarrow> getitem a c = getitem b c \<and> agree_on a b cs"
  by (simp add: agree_on_def)

lemma regression_mse_agree:
  assumes "agree_on a b (feats @ [tgt])"
  shows "regression_mse L a feats tgt = regression_mse L b feats tgt"
proof -
  from assms have feats: "agree_on a b feats" and tgt: "getitem a tgt = getitem b tgt"
    by (simp_all add: agree_on_append agree_on_Cons)
  show ?thesis
  proof (cases "getitem a tgt")
    case (Inl e)
    have "filter (\<lambda>c. c \<notin> set (names a)) feats = filter (\<lambda>c. c \<notin> set (names b)) feats"
      using agree_on_names [OF feats] by (intro filter_cong) auto
    moreover from Inl tgt have "getitem b tgt = Inl e" by simp
    ultimately show ?thesis
      using Inl
      by (cases "filter (\<lambda>c. c \<notin> set (names b)) feats")
        (simp_all add: regression_mse_def getitems_def)
  next
    case (Inr y)
    with tgt have "nrows a = length y" "nrows b = length y"
      using length_getitem [of a tgt y] length_getitem [of b tgt y] by simp_all
    then have "getitems a feats = getitems b feats"
      using getitems_agree [OF feats] by simp
    then show ?thesis unfolding regression_mse_def by (simp only: tgt)
  qed
qed

lemma perform_regression_returns:
  "snd (perform_regression L d feats tgt) = Inr m \<Longrightarrow> regression_mse L d feats tgt = Inr m"
  by (cases "regression_mse L d feats tgt"; cases "regplot d")
     (auto simp: perform_regression_def bind_run_def split: sum.splits)

lemma regplot_presence:
  assumes "(''alcohol'' \<in> set (names a)) = (''alcohol'' \<in> set (names b))"
    and "(''quality'' \<in> set (names a)) = (''quality'' \<in> set (names b))"
  shows "snd (regplot a) = snd (regplot b)"
proof -
  have "snd (regplot d) =
      (if ''alcohol'' \<notin> set (names d) then Inl (KeyError ''alcohol'')
       else if ''quality'' \<notin> set (names d) then Inl (KeyError ''quality'')
       else Inr ())" for d
    by (auto simp: regplot_def getitem_present getitem_absent)
  with assms show ?thesis by simp
qed

text \<open>
  C10. The mean squared error of the regression stage depends only on the feature
  columns and the target column. For two tables that agree on these columns, lines
  132-138 compute the same mean squared error (or fail with the same error); whenever
  the stage returns on both tables it returns the same value; and it ends the same way
  on both whenever the two columns its plot names, \<^verbatim>\<open>alcohol\<close> and \<^verbatim>\<open>quality\<close>, are
  present in both tables or absent from both, as they are when the tables differ only
  in the cluster-label column. This holds whatever the library routines compute.
\<close>

theorem perform_regression_mse_agree:
  assumes "agree_on a b (feats @ [tgt])"
  shows "regression_mse L a feats tgt = regression_mse L b feats tgt
    \<and> (\<forall>m m'. snd (perform_regression L a feats tgt) = Inr m
           \<and> snd (perform_regression L b feats tgt) = Inr m' \<longrightarrow> m = m')
    \<and> ((''alcohol'' \<in> set (names a)) = (''alcohol'' \<in> set (names b))
         \<and> (''quality'' \<in> set (names a)) = (''quality'' \<in> set (names b))
       \<longrightarrow> snd (perform_regression L a feats tgt) = snd (perform_regression L b feats tgt))"
proof (intro conjI allI impI)
  show mse: "regression_mse L a feats tgt = regression_mse L b feats tgt"
    using assms by (rule regression_mse_agree)
  fix m m'
  assume "snd (perform_regression L a feats tgt) = Inr m
    \<and> snd (perform_regression L b feats tgt) = Inr m'"
  then have "regression_mse L a feats tgt = Inr m" and "regression_mse L b feats tgt = Inr m'"
    by (simp_all add: perform_regression_returns)
  with mse show "m = m'" by simp
next
  assume "(''alcohol'' \<in> set (names a)) = (''alcohol'' \<in> set (names b))
    \<and> (''quality'' \<in> set (names a)) = (''quality'' \<in> set (names b))"
  then have plot: "snd (regplot a) = snd (regplot b)"
    by (intro regplot_presence) simp_all
  have "snd (perform_regression L d feats tgt) =
      (case regression_mse L d feats tgt of
         Inl e \<Rightarrow> Inl e
       | Inr mse \<Rightarrow> (case snd (regplot d) of Inl e \<Rightarrow> Inl e | Inr u \<Rightarrow> Inr mse))" for d
    by (cases "regplot d")
       (auto simp: perform_regression_def bind_run_def split: sum.splits)
  then show "snd (perform_regression L a feats tgt) = snd (perform_regression L b feats tgt)"
    using regression_mse_agree [OF assms, of L] plot by (simp only:)
qed

lemma getitem_with_alcohol:
  "getitem with_alcohol ''pH'' = Inr [Some (Num 3), Some (Num 4), Some (Num 5), Some (Num 6)]"
  "getitem with_alcohol ''quality'' = Inr [Some (Num 5), Some (Num 6), Some (Num 5), Some (Num 7)]"
  "getitem with_alcohol ''alcohol'' = Inr [Some (Num 9), Some (Num 10), Some (Num 11), Some (Num 12)]"
  "getitem with_alcohol ''cluster'' = Inl (KeyError ''cluster'')"
  by (simp_all add: with_alcohol_def getitem_def names_def)

lemma getitem_with_cluster:
  "getitem with_cluster ''pH'' = Inr [Some (Num 3), Some (Num 4), Some (Num 5), Some (Num 6)]"
  "getitem with_cluster ''quality'' = Inr [Some (Num 5), Some (Num 6), Some (Num 5), Some (Num 7)]"
  "getitem with_cluster ''alcohol'' = Inr [Some (Num 9), Some (Num 10), Some (Num 11), Some (Num 12)]"
  "getitem with_cluster ''cluster'' = Inr [Some (Num 0), Some (Num 1), Some (Num 1), Some (Num 2)]"
  by (simp_all add: with_cluster_def assign_column_def with_alcohol_def getitem_def names_def)

lemma regression_mse_with_alcohol:
  "regression_mse mean_regressor with_alcohol [''pH''] ''quality'' = Inr (1 / 2)"
proof -
  have X: "getitems with_alcohol [''pH''] = Inr [[Some (Num 3)], [Some (Num 4)], [Some (Num 5)], [Some (Num 6)]]"
    by (simp add: with_alcohol_def getitems_def names_def reindex_cells_def)
  have split: "train_test_split (\<lambda>n. [0 ..< n])
      [[Some (Num 3)], [Some (Num 4)], [Some (Num 5)], [Some (Num 6)]]
      [Some (Num 5), Some (Num 6), Some (Num 5), Some (Num 7)]
    = Inr ([[Some (Num 5)], [Some (Num 6)]], [[Some (Num 3)], [Some (Num 4)]],
           [Some (Num 5), Some (Num 7)], [Some (Num 5), Some (Num 6)])"
    by (simp add: train_test_split_def validate_shuffle_split_def shuffle_split_def
        safe_indexing_def upt_rec)
  show ?thesis
    by (simp add: regression_mse_def X getitem_with_alcohol mean_regressor_def split
        mean_def num_of_def)
qed

theorem perform_regression_mse_agree_witness:
  "agree_on with_alcohol with_cluster ([''pH''] @ [''quality''])
   \<and> getitem with_alcohol ''cluster'' \<noteq> getitem with_cluster ''cluster''
   \<and> regression_mse mean_regressor with_alcohol [''pH''] ''quality'' = Inr (1 / 2)
   \<and> regression_mse mean_regressor with_cluster [''pH''] ''quality'' = Inr (1 / 2)
   \<and> snd (perform_regression mean_regressor with_alcohol [''pH''] ''quality'') = Inr (1 / 2)
   \<and> snd (perform_regression mean_regressor with_cluster [''pH''] ''quality'') = Inr (1 / 2)"
proof -
  have agree: "agree_on with_alcohol with_cluster ([''pH''] @ [''quality''])"
    by (simp add: agree_on_def getitem_with_alcohol getitem_with_cluster)
  have differ: "getitem with_alcohol ''cluster'' \<noteq> getitem with_cluster ''cluster''"
    by (simp add: getitem_with_alcohol getitem_with_cluster)
  have present: "(''alcohol'' \<in> set (names with_alcohol)) = (''alcohol'' \<in> set (names with_cluster))
      \<and> (''quality'' \<in> set (names with_alcohol)) = (''quality'' \<in> set (names with_cluster))"
    by (simp add: with_cluster_def assign_column_def with_alcohol_def names_def)
  have "regplot with_alcohol =
      ([Regression_line [Some (Num 9), Some (Num 10), Some (Num 11), Some (Num 12)]
          [Some (Num 5), Some (Num 6), Some (Num 5), Some (Num 7)]], Inr ())"
    by (simp add: regplot_def getitem_with_alcohol)
  then have returned: "snd (perform_regression mean_regressor with_alcohol [''pH''] ''quality'') = Inr (1 / 2)"
    by (simp add: perform_regression_def regression_mse_with_alcohol bind_run_def)
  from perform_regression_mse_agree [OF agree, of mean_regressor] present
  have "regression_mse mean_regressor with_alcohol [''pH''] ''quality''
      = regression_mse mean_regressor with_cluster [''pH''] ''quality''"
    and "snd (perform_regression mean_regressor with_alcohol [''pH''] ''quality'')
      = snd (perform_regression mean_regressor with_cluster [''pH''] ''quality'')"
    by blast+
  with agree differ returned regression_mse_with_alcohol show ?thesis by simp
qed

section \<open>The order of the stages\<close>

lemma index_of_setitem_scalar: "\<exists>j. index_of c (names (setitem_scalar f c v)) = Some j"
proof (cases "index_of c (names f)")
  case None
  then have "c \<notin> set (names f)" by (simp add: index_of_None)
  then have "index_of c (names f @ [c]) = Some (length (names f))"
    by (rule index_of_snoc)
  with None show ?thesis
    by (simp add: setitem_scalar_def assign_column_def names_def)
next
  case (Some j)
  with index_of_update [of c "columns f" j Object] show ?thesis
    by (simp add: setitem_scalar_def assign_column_def names_def)
qed

lemma getitem_combine: "\<exists>tags. getitem (combine red white) ''wine_type'' = Inr tags"
proof -
  obtain j where "index_of ''wine_type'' (names (setitem_scalar red ''wine_type'' ''red'')) = Some j"
    using index_of_setitem_scalar by blast
  from getitem_concat_frames [OF this] show ?thesis
    by (simp add: combine_def)
qed

lemma bind_run_events: "fst (bind_run (ev, Inr x) k) = ev @ fst (k x)"
  by (simp add: bind_run_def split: prod.split)

lemma corr_Nil: "corr f = [] \<longleftrightarrow> columns f = []"
  by (simp add: corr_def)

lemma main_run:
  assumes "getitem (combine red_file white_file) ''wine_type'' = Inr tags"
  shows "main L red_file white_file =
    (if columns (select_dtypes_number (combine red_file white_file)) = []
     then ([Boxplot (combine red_file white_file), Countplot tags,
            Print_missing (isnull_sum (combine red_file white_file)),
            Print_duplicates (duplicate_count (combine red_file white_file))],
           Inl (ValueError ''zero-size array to reduction operation fmin which has no identity''))
     else
       bind_run
         ([Boxplot (combine red_file white_file), Countplot tags,
           Print_missing (isnull_sum (combine red_file white_file)),
           Print_duplicates (duplicate_count (combine red_file white_file)),
           Heatmap (corr (select_dtypes_number (combine red_file white_file)))],
          Inr (preprocess_data (combine red_file white_file)))
         (main_analyse L))"
  using assms
  by (simp add: main_def main_explore_def load_and_explore_data_def plot_correlation_matrix_def
      emit_def bind_run_def Let_def corr_Nil)

text \<open>
  C8 (as amended). In every run the exploration outputs (box plot, count plot,
  missing-value counts, duplicate-row count, correlation matrix) are computed over the
  combined table as loaded, before it is cleaned. When that table has no numeric column
  the heatmap call raises and the run ends there, before cleaning. Otherwise the cleaned
  table is what the later stages consume, each taking the table the stage before it
  returned: histogram and clustering the cleaned table, cluster plot and regression the
  table that clustering labelled. The order is load, explore, clean, histogram,
  cluster, plot clusters, regress.
\<close>

theorem main_stage_order:
  "\<exists>tags. getitem (combine red_file white_file) ''wine_type'' = Inr tags
    \<and> main L red_file white_file =
       (if columns (select_dtypes_number (combine red_file white_file)) = []
        then ([Boxplot (combine red_file white_file), Countplot tags,
               Print_missing (isnull_sum (combine red_file white_file)),
               Print_duplicates (duplicate_count (combine red_file white_file))],
              Inl (ValueError ''zero-size array to reduction operation fmin which has no identity''))
        else
          bind_run
            ([Boxplot (combine red_file white_file), Countplot tags,
              Print_missing (isnull_sum (combine red_file white_file)),
              Print_duplicates (duplicate_count (combine red_file white_file)),
              Heatmap (corr (select_dtypes_number (combine red_file white_file)))],
             Inr (preprocess_data (combine red_file white_file)))
            (\<lambda>cleaned.
               bind_run (plot_histogram cleaned) (\<lambda>_.
               bind_run (perform_clustering L cleaned main_features) (\<lambda>(clustered, silhouette_avg).
               bind_run (emit (Print_silhouette silhouette_avg)) (\<lambda>_.
               bind_run (visualize_clusters clustered) (\<lambda>_.
               bind_run (perform_regression L clustered main_features main_target) (\<lambda>mse.
               emit (Print_mse mse))))))))"
proof -
  obtain tags where tags: "getitem (combine red_file white_file) ''wine_type'' = Inr tags"
    using getitem_combine by blast
  have "main_analyse L = (\<lambda>cleaned.
             bind_run (plot_histogram cleaned) (\<lambda>_.
             bind_run (perform_clustering L cleaned main_features) (\<lambda>(clustered, silhouette_avg).
             bind_run (emit (Print_silhouette silhouette_avg)) (\<lambda>_.
             bind_run (visualize_clusters clustered) (\<lambda>_.
             bind_run (perform_regression L clustered main_features main_target) (\<lambda>mse.
             emit (Print_mse mse)))))))"
    by (rule ext) (simp add: main_analyse_def)
  with main_run [OF tags, of L] tags show ?thesis by auto
qed

text \<open>
  C8 as stated fails whenever cleaning removes something: for a file that lists one
  sample twice, the run prints one duplicate row, while the cleaned table has none.
\<close>

theorem main_explores_uncleaned_counterexample:
  "(\<forall>L :: 'm sklearn. Print_duplicates 1 \<in> set (fst (main L repeated_sample one_sample)))
   \<and> duplicate_count (preprocess_data (combine repeated_sample one_sample)) = 0
   \<and> nrows (combine repeated_sample one_sample) = 3
   \<and> nrows (preprocess_data (combine repeated_sample one_sample)) = 2"
proof -
  have raw: "combine repeated_sample one_sample =
    \<lparr>columns = [(''pH'', Numeric), (''quality'', Numeric), (''wine_type'', Object)],
     rows = [(0, [Some (Num 3), Some (Num 5), Some (Str ''red'')]),
             (1, [Some (Num 3), Some (Num 5), Some (Str ''red'')]),
             (0, [Some (Num 4), Some (Num 7), Some (Str ''white'')])]\<rparr>"
    by (simp add: combine_def concat_frames_def setitem_scalar_def assign_column_def
        union_columns_def reindex_cells_def names_def nrows_def common_dtype_def
        repeated_sample_def one_sample_def)
  have dup: "duplicate_count (combine repeated_sample one_sample) = 1"
    unfolding raw by (simp add: duplicate_count_def duplicated_def is_empty_def)
  have cleaned: "preprocess_data (combine repeated_sample one_sample) =
    \<lparr>columns = [(''pH'', Numeric), (''quality'', Numeric), (''wine_type'', Object)],
     rows = [(0, [Some (Num 3), Some (Num 5), Some (Str ''red'')]),
             (0, [Some (Num 4), Some (Num 7), Some (Str ''white'')])]\<rparr>"
    unfolding raw
    by (simp add: preprocess_data_def dropna_def drop_duplicates_def duplicated_def
        is_empty_def has_na_def)
  have dup': "duplicate_count (preprocess_data (combine repeated_sample one_sample)) = 0"
    unfolding cleaned by (simp add: duplicate_count_def duplicated_def is_empty_def)
  obtain tags where tags: "getitem (combine repeated_sample one_sample) ''wine_type'' = Inr tags"
    using getitem_combine by blast
  have "Print_duplicates 1 \<in> set (fst (main L repeated_sample one_sample))" for L :: "'m sklearn"
  proof -
    have "columns (select_dtypes_number (combine repeated_sample one_sample)) \<noteq> []"
      unfolding raw by (simp add: select_dtypes_number_def upt_rec)
    with main_run [OF tags, of L] show ?thesis
      by (simp add: bind_run_events dup)
  qed
  moreover have "nrows (combine repeated_sample one_sample) = 3"
    unfolding raw by (simp add: nrows_def)
  moreover have "nrows (preprocess_data (combine repeated_sample one_sample)) = 2"
    unfolding cleaned by (simp add: nrows_def)
  ultimately show ?thesis using dup' by blast
qed

section \<open>The correlation matrix\<close>

subsection \<open>Rounding\<close>

text \<open>
  A number \<open>k * 2 ^ q\<close> with \<open>\<bar>k\<bar> < 2 ^ p\<close> below the overflow threshold is a
  floating-point number of precision \<open>p\<close>, and rounding returns it unchanged.
\<close>

lemma round_half_even_of_int [simp]: "round_half_even (of_int n) = n"
  by (simp add: round_half_even_def)

lemma round_binary_representable:
  assumes X: "\<bar>x\<bar> * 2 ^ emin = real (nat \<bar>k\<bar> * 2 ^ q)"
    and k: "\<bar>k\<bar> < 2 ^ p" and pq: "p + q \<le> emin + emax"
  shows "round_binary p emin emax x = Finite x"
proof -
  define N where "N = nat \<bar>k\<bar> * 2 ^ q"
  define s where "s = floorlog 2 N - p"
  have X: "\<bar>x\<bar> * 2 ^ emin = real N"
    using X by (simp add: N_def)
  have fl: "nat \<lfloor>real N\<rfloor> = N" by simp
  have "N < 2 ^ p * 2 ^ q"
    using k by (simp add: N_def nat_less_iff)
  then have lt: "N < 2 ^ (p + q)" by (simp add: power_add)
  then have "floorlog 2 N \<le> p + q" by (simp add: floorlog_le_iff)
  then have sq: "s \<le> q" by (simp add: s_def)
  then have N': "N = (nat \<bar>k\<bar> * 2 ^ (q - s)) * 2 ^ s"
    by (simp add: N_def power_add [symmetric])
  then have "real N / 2 ^ s = real (nat \<bar>k\<bar> * 2 ^ (q - s))"
    by (metis nonzero_mult_div_cancel_right of_nat_mult of_nat_numeral of_nat_power
        power_not_zero zero_neq_numeral)
  then have "real N / 2 ^ s = of_int (int (nat \<bar>k\<bar> * 2 ^ (q - s)))"
    by simp
  then have m: "round_half_even (real N / 2 ^ s) = int (nat \<bar>k\<bar> * 2 ^ (q - s))"
    by (simp only: round_half_even_of_int)
  from N' have "int N = int ((nat \<bar>k\<bar> * 2 ^ (q - s)) * 2 ^ s)" by (rule arg_cong)
  then have ms: "round_half_even (real N / 2 ^ s) * 2 ^ s = int N"
    unfolding m by simp
  have "(2::nat) ^ (p + q) \<le> 2 ^ (emin + emax)"
    using pq by (intro power_increasing) simp_all
  with lt have "N < 2 ^ (emin + emax)" by linarith
  then have "int N < 2 ^ (emin + emax)"
    by (metis of_nat_less_iff of_nat_numeral of_nat_power)
  then have small: "((2::int) ^ (emin + emax) \<le> int N) = False" by simp
  have final: "sgn x * real_of_int (int N) / 2 ^ emin = x"
  proof -
    have "real_of_int (int N) = \<bar>x\<bar> * 2 ^ emin" using X by simp
    then show ?thesis by (simp add: sgn_mult_abs mult.assoc [symmetric])
  qed
  show ?thesis
    unfolding round_binary_def Let_def X fl s_def [symmetric] ms small if_False final ..
qed

lemma round_binary_exact:
  assumes k: "\<bar>k\<bar> < 2 ^ p" and j: "j \<le> emin" and pe: "p \<le> emax"
  shows "round_binary p emin emax (of_int k / 2 ^ j) = Finite (of_int k / 2 ^ j)"
proof (rule round_binary_representable [where k = k and q = "emin - j"])
  have "(2::real) ^ emin = 2 ^ j * 2 ^ (emin - j)"
    using j by (simp add: power_add [symmetric])
  then show "\<bar>real_of_int k / 2 ^ j\<bar> * 2 ^ emin = real (nat \<bar>k\<bar> * 2 ^ (emin - j))"
    by (simp add: abs_mult)
  show "\<bar>k\<bar> < 2 ^ p" by (rule k)
  show "p + (emin - j) \<le> emin + emax" using pe by simp
qed

lemma round_binary_scaled:
  assumes k: "\<bar>k\<bar> < 2 ^ p" and i: "p + i \<le> emax"
  shows "round_binary p emin emax (of_int k * 2 ^ i) = Finite (of_int k * 2 ^ i)"
proof (rule round_binary_representable [where k = k and q = "i + emin"])
  show "\<bar>real_of_int k * 2 ^ i\<bar> * 2 ^ emin = real (nat \<bar>k\<bar> * 2 ^ (i + emin))"
    by (simp add: abs_mult power_add)
  show "\<bar>k\<bar> < 2 ^ p" by (rule k)
  show "p + (i + emin) \<le> emin + emax" using i by simp
qed

lemma round64_exact:
  "\<bar>k\<bar> < 2 ^ 53 \<Longrightarrow> j \<le> 1074 \<Longrightarrow> round64 (of_int k / 2 ^ j) = Finite (of_int k / 2 ^ j)"
  unfolding round64_def by (rule round_binary_exact) simp_all

lemma round64_power: "i \<le> 971 \<Longrightarrow> round64 (2 ^ i) = Finite (2 ^ i)"
  unfolding round64_def using round_binary_scaled [of 1 53 i 1024 1074] by simp

lemma round64_numeral [simp]:
  "numeral n < (2::int) ^ 53 \<Longrightarrow> round64 (numeral n) = Finite (numeral n)"
  using round64_exact [of "numeral n" 0] by simp

lemma round64_neg_numeral [simp]:
  "numeral n < (2::int) ^ 53 \<Longrightarrow> round64 (- numeral n) = Finite (- numeral n)"
  using round64_exact [of "- numeral n" 0] by simp

lemma round64_0 [simp]: "round64 0 = Finite 0"
  using round64_exact [of 0 0] by simp

lemma round64_1 [simp]: "round64 1 = Finite 1"
  using round64_exact [of 1 0] by simp

lemma round64_neg_1 [simp]: "round64 (- 1) = Finite (- 1)"
  using round64_exact [of "- 1" 0] by simp

lemma round64_half [simp]: "round64 (1 / 2) = Finite (1 / 2)"
  using round64_exact [of 1 1] by simp

lemma round64_quarter [simp]: "round64 (1 / 4) = Finite (1 / 4)"
  using round64_exact [of 1 2] by simp

lemma round64_halves [simp]:
  "numeral n < (2::int) ^ 53 \<Longrightarrow> round64 (numeral n / 2) = Finite (numeral n / 2)"
  using round64_exact [of "numeral n" 1] by simp

lemma round_binary_tie:
  assumes p: "2 \<le> p" and pe: "p < emax"
  shows "round_binary p emin emax (2 ^ p + 1) = Finite (2 ^ p)"
proof -
  define N :: nat where "N = (2 ^ p + 1) * 2 ^ emin"
  have X: "\<bar>(2::real) ^ p + 1\<bar> * 2 ^ emin = real N"
    by (simp add: N_def algebra_simps)
  have fl: "nat \<lfloor>real N\<rfloor> = N" by simp
  have "floorlog 2 ((2::nat) ^ p + 1) = Suc p"
  proof (rule antisym)
    have "(2::nat) ^ 1 < 2 ^ p"
      using p by (intro power_strict_increasing) simp_all
    then have "(2::nat) ^ p + 1 < 2 ^ Suc p" by simp
    then show "floorlog 2 ((2::nat) ^ p + 1) \<le> Suc p"
      by (simp add: floorlog_le_iff)
    show "Suc p \<le> floorlog 2 ((2::nat) ^ p + 1)"
      by (rule floorlog_ge_SucI) simp_all
  qed
  then have "floorlog 2 N = Suc p + emin"
    unfolding N_def by (subst floorlog_power) simp_all
  then have s: "floorlog 2 N - p = Suc emin" by simp
  have "(2::real) ^ p = 2 * 2 ^ (p - 1)"
    using p by (metis Suc_diff_1 less_le_trans power_Suc zero_less_numeral)
  then have quot: "real N / 2 ^ Suc emin = 2 ^ (p - 1) + 1 / 2"
    by (simp add: N_def field_simps)
  have "even ((2::int) ^ (p - 1))" using p by simp
  moreover have "\<lfloor>(2::real) ^ (p - 1) + 1 / 2\<rfloor> = 2 ^ (p - 1)"
    by (simp add: floor_unique)
  ultimately have m: "round_half_even (real N / 2 ^ Suc emin) = 2 ^ (p - 1)"
    unfolding quot by (simp add: round_half_even_def)
  have "p - 1 + Suc emin = p + emin" using p by simp
  then have prod: "(2::int) ^ (p - 1) * 2 ^ Suc emin = 2 ^ (p + emin)"
    by (simp only: power_add [symmetric])
  have "(2::int) ^ (p + emin) < 2 ^ (emin + emax)"
    using pe by (intro power_strict_increasing) simp_all
  then have small: "((2::int) ^ (emin + emax) \<le> 2 ^ (p + emin)) = False" by simp
  have "0 < (2::real) ^ p + 1" by (simp add: add_pos_pos)
  then have "sgn ((2::real) ^ p + 1) = 1" by simp
  then have final: "sgn ((2::real) ^ p + 1) * real_of_int (2 ^ (p + emin)) / 2 ^ emin = 2 ^ p"
    by (simp add: power_add)
  show ?thesis
    unfolding round_binary_def Let_def X fl s m prod small if_False final ..
qed

lemma round64_tie: "round64 (2 ^ 53 + 1) = Finite (2 ^ 53)"
  unfolding round64_def by (rule round_binary_tie) simp_all

lemma round_binary_overflow:
  assumes "emax \<le> i" and "0 < p"
  shows "round_binary p emin emax (2 ^ i) = PlusInf"
proof -
  define N :: nat where "N = 2 ^ (i + emin)"
  define s where "s = floorlog 2 N - p"
  have X: "\<bar>(2::real) ^ i\<bar> * 2 ^ emin = real N"
    by (simp add: N_def power_add)
  have fl: "nat \<lfloor>real N\<rfloor> = N" by simp
  have "floorlog 2 N = Suc (i + emin)"
    unfolding N_def by (simp add: floorlog_def)
  then have "s \<le> i + emin" using assms(2) by (simp add: s_def)
  then have N': "N = 2 ^ (i + emin - s) * 2 ^ s"
    by (simp add: N_def power_add [symmetric])
  then have "real N / 2 ^ s = real (2 ^ (i + emin - s))"
    by (metis nonzero_mult_div_cancel_right of_nat_mult of_nat_numeral of_nat_power
        power_not_zero zero_neq_numeral)
  then have "real N / 2 ^ s = of_int (int (2 ^ (i + emin - s)))"
    by simp
  then have m: "round_half_even (real N / 2 ^ s) = int (2 ^ (i + emin - s))"
    by (simp only: round_half_even_of_int)
  from N' have "int N = int (2 ^ (i + emin - s) * 2 ^ s)" by (rule arg_cong)
  then have ms: "round_half_even (real N / 2 ^ s) * 2 ^ s = int N"
    unfolding m by simp
  have "(2::nat) ^ (emin + emax) \<le> 2 ^ (i + emin)"
    using assms(1) by (intro power_increasing) simp_all
  then have "(2::int) ^ (emin + emax) \<le> int N"
    unfolding N_def by (metis of_nat_le_iff of_nat_numeral of_nat_power)
  then have big: "((2::int) ^ (emin + emax) \<le> int N) = True" by simp
  have pos: "(0 < (2::real) ^ i) = True" by simp
  show ?thesis
    unfolding round_binary_def Let_def X fl s_def [symmetric] ms big if_True pos infinity_def ..
qed

lemma round64_overflow: "1024 \<le> i \<Longrightarrow> round64 (2 ^ i) = PlusInf"
  unfolding round64_def by (rule round_binary_overflow) simp_all


subsection \<open>The entries\<close>








subsection \<open>Examples\<close>


lemmas nancorr_simps =
  nancorr_entry_def welford_step_def welford_start_def complete_obs_def map_filter_simps
  fsub_def clip_def Let_def







lemma nancorr_entry_constant_pair:
  assumes "round64 c = Finite c"
  shows "nancorr_entry [Finite c, Finite c] [Finite c, Finite c] = NaN"
  using assms by (simp add: nancorr_simps)

lemma column_floats_large_integers:
  "column_floats large_integers 0 = [Finite (2 ^ 53), Finite (2 ^ 53)]"
  using round64_power [of 53] round64_tie
  by (simp add: column_floats_def large_integers_def to_float64_def)

lemma corr_large_integers: "corr (select_dtypes_number large_integers) = [[NaN]]"
proof -
  have "select_dtypes_number large_integers = large_integers"
    by (simp add: select_dtypes_number_def large_integers_def)
  moreover have "nancorr_entry [Finite (2 ^ 53), Finite (2 ^ 53)] [Finite (2 ^ 53), Finite (2 ^ 53)] = NaN"
    using round64_power [of 53] by (intro nancorr_entry_constant_pair) simp
  moreover have "[0 ..< length (columns large_integers)] = [0]"
    by (simp add: large_integers_def)
  ultimately show ?thesis
    by (simp add: corr_def column_floats_large_integers)
qed

lemma nancorr_entry_overflow:
  "nancorr_entry [Finite 0, Finite (2 ^ 400)] [Finite 0, Finite (2 ^ 400)] = Finite 0"
  using round64_power [of 400] round64_power [of 399] round64_power [of 799]
    round64_overflow [of 1598]
  by (simp add: nancorr_simps)

lemma corr_wide_range: "corr (select_dtypes_number wide_range) = [[Finite 0]]"
proof -
  have "select_dtypes_number wide_range = wide_range"
    by (simp add: select_dtypes_number_def wide_range_def)
  moreover have "column_floats wide_range 0 = [Finite 0, Finite (2 ^ 400)]"
    using round64_power [of 400]
    by (simp add: column_floats_def wide_range_def to_float64_def)
  moreover have "[0 ..< length (columns wide_range)] = [0]"
    by (simp add: wide_range_def)
  moreover note nancorr_entry_overflow
  ultimately show ?thesis
    by (simp add: corr_def)
qed




end
